theory Spec2Isabelle
  imports Complex_Main "HOL-Library.Word"
begin

section \<open>REBOUNDx core: effect registry, parameter stores, teardown\<close>

text \<open>
  A shallow embedding of \<^verbatim>\<open>core.c\<close> (REBOUNDx 2.12.0). The C program works on
  malloc'ed structs linked through raw pointers, tags objects by storing small integers
  in pointer fields and compares pointers with integers, so the model keeps all of that:
  a pointer is the integer it holds, memory is a family of typed heaps from addresses to
  structs, and every function takes the state and returns the new one. A step that the
  C standard leaves undefined (dereferencing an invalid pointer, indexing past an array,
  signed overflow, overrunning a \<^verbatim>\<open>char\<close> buffer) stops the run with the kind of the
  violation; \<^verbatim>\<open>exit(1)\<close> stops it with the diagnostic. A loop over a linked list is a
  \<^theory_text>\<open>partial_function\<close>: on a cyclic list it does not return, and its value is \<open>None\<close>.
\<close>

subsection \<open>Values, declarations taken from the missing headers\<close>

type_synonym addr = int
type_synonym u32 = "32 word"

abbreviation NULL :: addr where "NULL \<equiv> 0"

datatype rebx_param_type = REBX_TYPE_DOUBLE | REBX_TYPE_INT

datatype rebx_object_type = REBX_TYPE_EFFECT | REBX_TYPE_PARTICLE

text \<open>
  \<^verbatim>\<open>core.h\<close>, \<^verbatim>\<open>reboundx.h\<close> and \<^verbatim>\<open>rebound.h\<close> are not among the sources. What
  the code takes from them is a parameter of the model: the host's string hash
  \<^verbatim>\<open>reb_hash\<close>, and the integer values of the two enumerators of
  \<^verbatim>\<open>enum rebx_object_type\<close>, which the code casts to pointers.
\<close>

record header =
  reb_hash :: "string \<Rightarrow> u32"
  EFFECT_value :: int
  PARTICLE_value :: int

text \<open>The platform: \<^verbatim>\<open>int\<close> has 32 bits, \<^verbatim>\<open>size_t\<close> 64, \<^verbatim>\<open>double\<close> 8 bytes.\<close>

definition INT_MAX :: int where "INT_MAX = 2147483647"
definition INT_MIN :: int where "INT_MIN = - 2147483648"
definition sizeof_int :: nat where "sizeof_int = 4"
definition sizeof_double :: nat where "sizeof_double = 8"

definition size_t_mul :: "nat \<Rightarrow> int \<Rightarrow> nat" where
  \<comment> \<open>\<^verbatim>\<open>sizeof(T) * n\<close> for an \<^verbatim>\<open>int n\<close>: \<open>n\<close> is converted to \<^verbatim>\<open>size_t\<close>, the product wraps\<close>
  "size_t_mul k n = (k * nat (n mod 2 ^ 64)) mod 2 ^ 64"

subsection \<open>Outcomes\<close>

datatype ub = NullDeref | InvalidDeref | BadCast | OutOfBounds | SignedOverflow
  | BufferOverflow | InvalidFree

datatype stop = UB ub | Exit string

type_synonym 'a run = "(stop + 'a) option"

definition bind_run :: "'a run \<Rightarrow> ('a \<Rightarrow> 'b run) \<Rightarrow> 'b run" where
  "bind_run m f = (case m of None \<Rightarrow> None | Some (Inl e) \<Rightarrow> Some (Inl e) | Some (Inr x) \<Rightarrow> f x)"

definition lift :: "stop + 'a \<Rightarrow> 'a run" where
  "lift m = Some m"

subsection \<open>Structs\<close>

text \<open>
  A function pointer is \<open>None\<close> when \<^verbatim>\<open>NULL\<close>, else the number of the routine it
  points to. The two hooks of the host simulation hold pointers to functions of one
  argument; the routines of this file that are stored there have names.
\<close>

type_synonym fnptr = "nat option"

datatype hook = Rebx_forces | Rebx_post_timestep_modifications | Host_function nat

record reb_particle =
  p_ap :: addr

text \<open>
  \<^verbatim>\<open>struct rebx_effect\<close>. \<^verbatim>\<open>rebx_add_effect\<close> writes \<^verbatim>\<open>effect->ap = NULL\<close> and
  then, through a \<^verbatim>\<open>struct reb_particle*\<close> to the same storage, \<^verbatim>\<open>p->ap = REBX_TYPE_EFFECT\<close>;
  every other function reads the tag through the particle view and the list head through
  \<^verbatim>\<open>effect->ap\<close>. The two members sit in different structs, hence at their own offsets:
  \<open>e_ap\<close> is the member of \<^verbatim>\<open>struct rebx_effect\<close>, \<open>e_particle_ap\<close> the word of the effect's
  storage at the offset of \<^verbatim>\<open>reb_particle.ap\<close>. (Were they one cell, the first store
  would be dead and the list walk from a new effect would start at the tag.)
\<close>

record rebx_effect =
  e_hash :: u32
  e_ap :: addr
  e_force :: fnptr
  e_ptm :: fnptr
  e_rebx :: addr
  e_next :: addr
  e_particle_ap :: addr

datatype object = Particle reb_particle | Effect rebx_effect

record rebx_param =
  pr_hash :: u32
  pr_param_type :: rebx_param_type
  pr_ndim :: int
  pr_shape :: addr
  pr_size :: int
  pr_contents :: addr
  pr_next :: addr

record rebx_param_to_be_freed =
  tf_param :: addr
  tf_next :: addr

record rebx_extras =
  x_effects :: addr
  x_params_to_be_freed :: addr

text \<open>Raw storage from \<^verbatim>\<open>malloc\<close>: the number of bytes asked for, and what was written.\<close>

datatype cell = DoubleCell real | IntCell int

record block =
  bytes :: nat
  cells :: "cell list"

datatype severity = Warning | Error

text \<open>
  The state: the fields of the host's \<^verbatim>\<open>struct reb_simulation\<close> that the code touches
  (one simulation), the typed heaps, the allocator (the addresses \<^verbatim>\<open>malloc\<close> will hand
  out next, and the live allocations), and the memory of the callbacks (\<open>trace\<close>).
\<close>

record state =
  sim_extras :: addr
  additional_forces :: "hook option"
  post_timestep_modifications :: "hook option"
  force_is_velocity_dependent :: int
  messages :: "(severity \<times> string) list"
  extras :: "addr \<rightharpoonup> rebx_extras"
  objects :: "addr \<rightharpoonup> object"
  params :: "addr \<rightharpoonup> rebx_param"
  to_be_freed :: "addr \<rightharpoonup> rebx_param_to_be_freed"
  blocks :: "addr \<rightharpoonup> block"
  pool :: "addr list"
  live :: "addr list"
  trace :: "u32 list"

subsection \<open>The allocator and the host's diagnostics\<close>

definition malloc :: "state \<Rightarrow> addr \<times> state" where
  \<comment> \<open>the next address of the pool; \<^verbatim>\<open>NULL\<close> when there is none\<close>
  "malloc s = (case pool s of
       [] \<Rightarrow> (NULL, s)
     | a # rest \<Rightarrow> if a = NULL then (NULL, s\<lparr>pool := rest\<rparr>)
                   else (a, s\<lparr>pool := rest, live := a # live s\<rparr>))"

definition free :: "addr \<Rightarrow> state \<Rightarrow> stop + state" where
  "free a s =
     (if a = NULL then Inr s
      else if a \<in> set (live s) then
        Inr (s\<lparr>live := removeAll a (live s),
               extras := (extras s)(a := None),
               objects := (objects s)(a := None),
               params := (params s)(a := None),
               to_be_freed := (to_be_freed s)(a := None),
               blocks := (blocks s)(a := None)\<rparr>)
      else Inl (UB InvalidFree))"

definition writable :: "state \<Rightarrow> addr \<Rightarrow> stop + unit" where
  \<comment> \<open>a store through a pointer that came from \<^verbatim>\<open>malloc\<close>\<close>
  "writable s a = (if a = NULL then Inl (UB NullDeref)
                   else if a \<in> set (live s) then Inr () else Inl (UB InvalidDeref))"

definition reb_warning :: "string \<Rightarrow> state \<Rightarrow> state" where
  "reb_warning msg s = s\<lparr>messages := messages s @ [(Warning, msg)]\<rparr>"

definition reb_error :: "string \<Rightarrow> state \<Rightarrow> state" where
  "reb_error msg s = s\<lparr>messages := messages s @ [(Error, msg)]\<rparr>"

definition sprintf :: "nat \<Rightarrow> string \<Rightarrow> stop + string" where
  \<comment> \<open>\<^verbatim>\<open>sprintf(str, ...)\<close> into \<^verbatim>\<open>char str[n]\<close>: the text and its terminating zero must fit\<close>
  "sprintf n text = (if length text < n then Inr text else Inl (UB BufferOverflow))"

subsection \<open>Dereferencing\<close>

text \<open>A pointer can be followed when it is not \<^verbatim>\<open>NULL\<close> and a struct of its type lives there.\<close>

definition deref :: "(addr \<rightharpoonup> 'a) \<Rightarrow> addr \<Rightarrow> stop + 'a" where
  "deref h a = (if a = NULL then Inl (UB NullDeref)
                else (case h a of None \<Rightarrow> Inl (UB InvalidDeref) | Some x \<Rightarrow> Inr x))"

definition deref_extras :: "state \<Rightarrow> addr \<Rightarrow> stop + rebx_extras" where
  "deref_extras s a = deref (extras s) a"

definition deref_param :: "(addr \<rightharpoonup> rebx_param) \<Rightarrow> addr \<Rightarrow> stop + rebx_param" where
  \<comment> \<open>through a \<^verbatim>\<open>struct rebx_param*\<close>, in the heap \<open>h\<close> of parameter nodes\<close>
  "deref_param h a = deref h a"

definition deref_effect :: "state \<Rightarrow> addr \<Rightarrow> stop + rebx_effect" where
  \<comment> \<open>through a \<^verbatim>\<open>struct rebx_effect*\<close>; the storage of a particle has no such members\<close>
  "deref_effect s a = (case deref (objects s) a of
       Inl e \<Rightarrow> Inl e
     | Inr (Particle p) \<Rightarrow> Inl (UB BadCast)
     | Inr (Effect e) \<Rightarrow> Inr e)"

subsection \<open>Initialization and garbage collection\<close>

definition already_set_warning :: string where
  "already_set_warning = ''sim->additional_forces or sim->post_timestep_modifications was already set.''"

definition rebx_initialize :: "addr \<Rightarrow> state \<Rightarrow> stop + state" where
  "rebx_initialize rebx s =
     (case deref_extras s rebx of
        Inl e \<Rightarrow> Inl e
      | Inr x \<Rightarrow>
          let s1 = s\<lparr>sim_extras := rebx\<rparr>;
              s2 = (if additional_forces s1 \<noteq> None \<or> post_timestep_modifications s1 \<noteq> None
                    then reb_warning already_set_warning s1 else s1)
          in Inr (s2\<lparr>additional_forces := Some Rebx_forces,
                     post_timestep_modifications := Some Rebx_post_timestep_modifications,
                     extras := (extras s2)(rebx \<mapsto> \<lparr>x_effects = NULL, x_params_to_be_freed = NULL\<rparr>)\<rparr>))"

definition rebx_init :: "state \<Rightarrow> stop + (addr \<times> state)" where
  "rebx_init s =
     (case malloc s of (rebx, s1) \<Rightarrow>
        if rebx = NULL then Inl (UB NullDeref)
        else (case rebx_initialize rebx
                    (s1\<lparr>extras := (extras s1)(rebx \<mapsto> \<lparr>x_effects = NULL, x_params_to_be_freed = NULL\<rparr>)\<rparr>) of
               Inl e \<Rightarrow> Inl e
             | Inr s2 \<Rightarrow> Inr (rebx, s2)))"

definition rebx_remove_from_simulation :: "state \<Rightarrow> state" where
  "rebx_remove_from_simulation s =
     s\<lparr>additional_forces := None, post_timestep_modifications := None\<rparr>"


partial_function (option) free_params_loop :: "addr \<Rightarrow> state \<Rightarrow> state run" where
  "free_params_loop current s =
     (if current = NULL then Some (Inr s)
      else (case deref (to_be_freed s) current of
        Inl e \<Rightarrow> Some (Inl e)
      | Inr t \<Rightarrow>
         (case deref_param (params s) (tf_param t) of
            Inl e \<Rightarrow> Some (Inl e)
          | Inr p \<Rightarrow>
             (case free (pr_contents p) s of
                Inl e \<Rightarrow> Some (Inl e)
              | Inr s1 \<Rightarrow>
                 (case free (tf_param t) s1 of
                    Inl e \<Rightarrow> Some (Inl e)
                  | Inr s2 \<Rightarrow>
                     (case free current s2 of
                        Inl e \<Rightarrow> Some (Inl e)
                      | Inr s3 \<Rightarrow> free_params_loop (tf_next t) s3))))))"

definition rebx_free_params :: "addr \<Rightarrow> state \<Rightarrow> state run" where
  "rebx_free_params rebx s =
     (case deref_extras s rebx of
        Inl e \<Rightarrow> Some (Inl e)
      | Inr x \<Rightarrow> free_params_loop (x_params_to_be_freed x) s)"

partial_function (option) free_effects_loop :: "addr \<Rightarrow> state \<Rightarrow> state run" where
  "free_effects_loop current s =
     (if current = NULL then Some (Inr s)
      else (case deref_effect s current of
        Inl e \<Rightarrow> Some (Inl e)
      | Inr eff \<Rightarrow>
         (case free current s of
            Inl e \<Rightarrow> Some (Inl e)
          | Inr s1 \<Rightarrow> free_effects_loop (e_next eff) s1)))"

definition rebx_free_effects :: "addr \<Rightarrow> state \<Rightarrow> state run" where
  "rebx_free_effects rebx s =
     (case deref_extras s rebx of
        Inl e \<Rightarrow> Some (Inl e)
      | Inr x \<Rightarrow> free_effects_loop (x_effects x) s)"

definition rebx_free :: "addr \<Rightarrow> state \<Rightarrow> state run" where
  "rebx_free rebx s =
     bind_run (rebx_free_params rebx s) (\<lambda>s1.
     bind_run (rebx_free_effects rebx s1) (\<lambda>s2.
     lift (free rebx s2)))"

subsection \<open>Functions executing forces and post-timestep modifications each timestep\<close>

text \<open>
  The callbacks are the effects' own code. \<open>exec f s effect\<close> is the state after the
  routine number \<open>f\<close> ran on the simulation and the effect at address \<open>effect\<close>.
\<close>

type_synonym exec = "nat \<Rightarrow> state \<Rightarrow> addr \<Rightarrow> state"

partial_function (option) forces_loop :: "exec \<Rightarrow> addr \<Rightarrow> state \<Rightarrow> state run" where
  "forces_loop ex current s =
     (if current = NULL then Some (Inr s)
      else (case deref_effect s current of
        Inl e \<Rightarrow> Some (Inl e)
      | Inr eff \<Rightarrow>
         (let s1 = (case e_force eff of None \<Rightarrow> s | Some f \<Rightarrow> ex f s current)
          in (case deref_effect s1 current of
                Inl e \<Rightarrow> Some (Inl e)
              | Inr eff1 \<Rightarrow> forces_loop ex (e_next eff1) s1))))"

definition rebx_forces :: "exec \<Rightarrow> state \<Rightarrow> state run" where
  "rebx_forces ex s =
     (case deref_extras s (sim_extras s) of
        Inl e \<Rightarrow> Some (Inl e)
      | Inr rebx \<Rightarrow> forces_loop ex (x_effects rebx) s)"

partial_function (option) ptm_loop :: "exec \<Rightarrow> addr \<Rightarrow> state \<Rightarrow> state run" where
  "ptm_loop ex current s =
     (if current = NULL then Some (Inr s)
      else (case deref_effect s current of
        Inl e \<Rightarrow> Some (Inl e)
      | Inr eff \<Rightarrow>
         (let s1 = (case e_ptm eff of None \<Rightarrow> s | Some f \<Rightarrow> ex f s current)
          in (case deref_effect s1 current of
                Inl e \<Rightarrow> Some (Inl e)
              | Inr eff1 \<Rightarrow> ptm_loop ex (e_next eff1) s1))))"

definition rebx_post_timestep_modifications :: "exec \<Rightarrow> state \<Rightarrow> state run" where
  "rebx_post_timestep_modifications ex s =
     (case deref_extras s (sim_extras s) of
        Inl e \<Rightarrow> Some (Inl e)
      | Inr rebx \<Rightarrow> ptm_loop ex (x_effects rebx) s)"

subsection \<open>Adders for linked lists in extras structure\<close>

definition rebx_add_effect :: "header \<Rightarrow> addr \<Rightarrow> string \<Rightarrow> state \<Rightarrow> stop + (addr \<times> state)" where
  "rebx_add_effect hdr rebx name s =
     (case malloc s of (effect, s1) \<Rightarrow>
        (case writable s1 effect of
           Inl e \<Rightarrow> Inl e
         | Inr _ \<Rightarrow>
            (case deref_extras s1 rebx of
               Inl e \<Rightarrow> Inl e
             | Inr x \<Rightarrow>
                Inr (effect,
                     s1\<lparr>objects := (objects s1)(effect \<mapsto> Effect
                           \<lparr>e_hash = reb_hash hdr name, e_ap = NULL, e_force = None, e_ptm = None,
                            e_rebx = rebx, e_next = x_effects x,
                            e_particle_ap = EFFECT_value hdr\<rparr>),
                        extras := (extras s1)(rebx \<mapsto> x\<lparr>x_effects := effect\<rparr>)\<rparr>))))"

definition rebx_add :: "header \<Rightarrow> addr \<Rightarrow> string \<Rightarrow> state \<Rightarrow> stop + (addr \<times> state)" where
  \<comment> \<open>the table of builtin names between the two statements is commented out in the source\<close>
  "rebx_add hdr rebx name s =
     (case rebx_add_effect hdr rebx name s of
        Inl e \<Rightarrow> Inl e
      | Inr (effect, s1) \<Rightarrow>
         (case deref_extras s1 rebx of
            Inl e \<Rightarrow> Inl e
          | Inr _ \<Rightarrow> Inr (effect, s1)))"

definition set_force :: "addr \<Rightarrow> fnptr \<Rightarrow> state \<Rightarrow> state" where
  "set_force effect f s = (case objects s effect of
       Some (Effect e) \<Rightarrow> s\<lparr>objects := (objects s)(effect \<mapsto> Effect (e\<lparr>e_force := f\<rparr>))\<rparr>
     | _ \<Rightarrow> s)"

definition set_ptm :: "addr \<Rightarrow> fnptr \<Rightarrow> state \<Rightarrow> state" where
  "set_ptm effect f s = (case objects s effect of
       Some (Effect e) \<Rightarrow> s\<lparr>objects := (objects s)(effect \<mapsto> Effect (e\<lparr>e_ptm := f\<rparr>))\<rparr>
     | _ \<Rightarrow> s)"

definition rebx_add_custom_force ::
  "header \<Rightarrow> addr \<Rightarrow> string \<Rightarrow> fnptr \<Rightarrow> int \<Rightarrow> state \<Rightarrow> stop + (addr \<times> state)" where
  "rebx_add_custom_force hdr rebx name custom_force velocity_dependent s =
     (case rebx_add_effect hdr rebx name s of
        Inl e \<Rightarrow> Inl e
      | Inr (effect, s1) \<Rightarrow>
         (let s2 = set_force effect custom_force s1
          in (case deref_extras s2 rebx of
                Inl e \<Rightarrow> Inl e
              | Inr _ \<Rightarrow>
                 Inr (effect, if velocity_dependent \<noteq> 0
                              then s2\<lparr>force_is_velocity_dependent := 1\<rparr> else s2))))"

definition rebx_add_custom_post_timestep_modification ::
  "header \<Rightarrow> addr \<Rightarrow> string \<Rightarrow> fnptr \<Rightarrow> state \<Rightarrow> stop + (addr \<times> state)" where
  "rebx_add_custom_post_timestep_modification hdr rebx name custom_ptm s =
     (case rebx_add_effect hdr rebx name s of
        Inl e \<Rightarrow> Inl e
      | Inr (effect, s1) \<Rightarrow> Inr (effect, set_ptm effect custom_ptm s1))"

definition rebx_add_param_to_be_freed :: "addr \<Rightarrow> addr \<Rightarrow> state \<Rightarrow> stop + state" where
  "rebx_add_param_to_be_freed rebx param s =
     (case malloc s of (newparam, s1) \<Rightarrow>
        (case writable s1 newparam of
           Inl e \<Rightarrow> Inl e
         | Inr _ \<Rightarrow>
            (case deref_extras s1 rebx of
               Inl e \<Rightarrow> Inl e
             | Inr x \<Rightarrow>
                Inr (s1\<lparr>to_be_freed := (to_be_freed s1)(newparam \<mapsto>
                           \<lparr>tf_param = param, tf_next = x_params_to_be_freed x\<rparr>),
                        extras := (extras s1)(rebx \<mapsto> x\<lparr>x_params_to_be_freed := newparam\<rparr>)\<rparr>))))"

subsection \<open>Internal functions for dealing with parameters\<close>

definition particle_ap :: "state \<Rightarrow> addr \<Rightarrow> stop + addr" where
  \<comment> \<open>\<^verbatim>\<open>((struct reb_particle*)object)->ap\<close>\<close>
  "particle_ap s object = (case deref (objects s) object of
       Inl e \<Rightarrow> Inl e
     | Inr (Particle p) \<Rightarrow> Inr (p_ap p)
     | Inr (Effect e) \<Rightarrow> Inr (e_particle_ap e))"

definition set_particle_ap :: "addr \<Rightarrow> addr \<Rightarrow> state \<Rightarrow> stop + state" where
  "set_particle_ap object v s = (case deref (objects s) object of
       Inl e \<Rightarrow> Inl e
     | Inr (Particle p) \<Rightarrow> Inr (s\<lparr>objects := (objects s)(object \<mapsto> Particle (p\<lparr>p_ap := v\<rparr>))\<rparr>)
     | Inr (Effect e) \<Rightarrow>
         Inr (s\<lparr>objects := (objects s)(object \<mapsto> Effect (e\<lparr>e_particle_ap := v\<rparr>))\<rparr>))"

definition set_effect_ap :: "addr \<Rightarrow> addr \<Rightarrow> state \<Rightarrow> stop + state" where
  "set_effect_ap object v s = (case deref_effect s object of
       Inl e \<Rightarrow> Inl e
     | Inr eff \<Rightarrow> Inr (s\<lparr>objects := (objects s)(object \<mapsto> Effect (eff\<lparr>e_ap := v\<rparr>))\<rparr>))"

definition rebx_get_object_type :: "header \<Rightarrow> state \<Rightarrow> addr \<Rightarrow> stop + rebx_object_type" where
  "rebx_get_object_type hdr s object = (case particle_ap s object of
       Inl e \<Rightarrow> Inl e
     | Inr v \<Rightarrow> Inr (if v = EFFECT_value hdr then REBX_TYPE_EFFECT else REBX_TYPE_PARTICLE))"

definition rebx_get_sim :: "header \<Rightarrow> state \<Rightarrow> addr \<Rightarrow> stop + unit" where
  \<comment> \<open>the pointer to the one simulation, when the members on the way can be read\<close>
  "rebx_get_sim hdr s object = (case rebx_get_object_type hdr s object of
       Inl e \<Rightarrow> Inl e
     | Inr REBX_TYPE_EFFECT \<Rightarrow>
         (case deref_effect s object of
            Inl e \<Rightarrow> Inl e
          | Inr eff \<Rightarrow> (case deref_extras s (e_rebx eff) of Inl e \<Rightarrow> Inl e | Inr _ \<Rightarrow> Inr ()))
     | Inr REBX_TYPE_PARTICLE \<Rightarrow>
         (case deref (objects s) object of
            Inl e \<Rightarrow> Inl e
          | Inr (Particle p) \<Rightarrow> Inr ()
          | Inr (Effect e) \<Rightarrow> Inl (UB BadCast)))"

definition collides :: "header \<Rightarrow> addr \<Rightarrow> bool" where
  \<comment> \<open>the loop over \<^verbatim>\<open>j\<close> from \<^verbatim>\<open>REBX_TYPE_EFFECT\<close> to \<^verbatim>\<open>REBX_TYPE_PARTICLE\<close>\<close>
  "collides hdr a = list_ex (\<lambda>j. a = j) [EFFECT_value hdr .. PARTICLE_value hdr]"

function retry_loop :: "header \<Rightarrow> nat \<Rightarrow> addr list \<Rightarrow> state \<Rightarrow> stop + (nat \<times> addr list \<times> state)" where
  "retry_loop hdr i address s =
     (if i \<le> 5 then
        (case malloc s of (a, s1) \<Rightarrow>
           if i < length address then
             (if collides hdr a then retry_loop hdr (i + 1) (address[i := a]) s1
              else Inr (i, address[i := a], s1))
           else Inl (UB OutOfBounds))
      else Inr (i, address, s))"
  by pat_completeness auto
termination
  by (relation "measure (\<lambda>(hdr, i, address, s). 6 - i)") auto

declare retry_loop.simps [simp del]

fun free_all :: "addr list \<Rightarrow> state \<Rightarrow> stop + state" where
  "free_all [] s = Inr s"
| "free_all (a # as) s = (case free a s of Inl e \<Rightarrow> Inl e | Inr s1 \<Rightarrow> free_all as s1)"

definition no_valid_memory :: string where
  "no_valid_memory = ''REBOUNDx Error:  Can'' @ [CHR 0x27] @ ''t allocate valid memory for parameter.'' @ [CHR 0x0A]"

definition rebx_validate_ap_address :: "header \<Rightarrow> addr \<Rightarrow> state \<Rightarrow> stop + (addr \<times> state)" where
  "rebx_validate_ap_address hdr newparam s =
     (if \<not> collides hdr newparam then Inr (newparam, s)
      else (case free newparam s of
        Inl e \<Rightarrow> Inl e
      | Inr s1 \<Rightarrow>
         (case retry_loop hdr 0 (replicate 5 NULL) s1 of
            Inl e \<Rightarrow> Inl e
          | Inr (i, address, s2) \<Rightarrow>
             if i = 5 then Inl (Exit no_valid_memory)
             else (case free_all (take i address) s2 of
                Inl e \<Rightarrow> Inl e
              | Inr s3 \<Rightarrow>
                 if i < length address then Inr (address ! i, s3)
                 else Inl (UB OutOfBounds)))))"

subsection \<open>User interface for parameters\<close>

text \<open>The two loops over a parameter list read and write parameter nodes only.\<close>

partial_function (option) find_node :: "(addr \<rightharpoonup> rebx_param) \<Rightarrow> u32 \<Rightarrow> addr \<Rightarrow> addr run" where
  "find_node h hash current =
     (if current = NULL then Some (Inr NULL)
      else (case deref_param h current of
        Inl e \<Rightarrow> Some (Inl e)
      | Inr n \<Rightarrow> if pr_hash n = hash then Some (Inr current)
                 else find_node h hash (pr_next n)))"

definition rebx_get_param_node :: "header \<Rightarrow> addr \<Rightarrow> string \<Rightarrow> state \<Rightarrow> addr run" where
  "rebx_get_param_node hdr object param_name s =
     (case rebx_get_object_type hdr s object of
        Inl e \<Rightarrow> Some (Inl e)
      | Inr REBX_TYPE_EFFECT \<Rightarrow>
         (case deref_effect s object of
            Inl e \<Rightarrow> Some (Inl e)
          | Inr eff \<Rightarrow> find_node (params s) (reb_hash hdr param_name) (e_ap eff))
      | Inr REBX_TYPE_PARTICLE \<Rightarrow>
         (case particle_ap s object of
            Inl e \<Rightarrow> Some (Inl e)
          | Inr head \<Rightarrow> find_node (params s) (reb_hash hdr param_name) head))"

definition rebx_get_param :: "header \<Rightarrow> addr \<Rightarrow> string \<Rightarrow> state \<Rightarrow> addr run" where
  "rebx_get_param hdr object param_name s =
     bind_run (rebx_get_param_node hdr object param_name s) (\<lambda>node.
       if node = NULL then Some (Inr NULL)
       else (case deref_param (params s) node of
               Inl e \<Rightarrow> Some (Inl e)
             | Inr n \<Rightarrow> Some (Inr (pr_contents n))))"

partial_function (option) unlink_loop ::
  "u32 \<Rightarrow> addr \<Rightarrow> (addr \<rightharpoonup> rebx_param) \<Rightarrow> (int \<times> (addr \<rightharpoonup> rebx_param)) run" where
  "unlink_loop hash current h =
     (case deref_param h current of
        Inl e \<Rightarrow> Some (Inl e)
      | Inr n \<Rightarrow>
         if pr_next n = NULL then Some (Inr (0, h))
         else (case deref_param h (pr_next n) of
            Inl e \<Rightarrow> Some (Inl e)
          | Inr n1 \<Rightarrow>
             if pr_hash n1 = hash
             then Some (Inr (1, h(current \<mapsto> n\<lparr>pr_next := pr_next n1\<rparr>)))
             else unlink_loop hash (pr_next n) h))"

definition scan_rest :: "u32 \<Rightarrow> addr \<Rightarrow> state \<Rightarrow> (int \<times> state) run" where
  \<comment> \<open>the \<^verbatim>\<open>while\<close> loop of \<^verbatim>\<open>rebx_remove_param\<close>, run on the nodes of the state\<close>
  "scan_rest hash current s =
     bind_run (unlink_loop hash current (params s)) (\<lambda>(r, h). Some (Inr (r, s\<lparr>params := h\<rparr>)))"

definition rebx_remove_param :: "header \<Rightarrow> addr \<Rightarrow> string \<Rightarrow> state \<Rightarrow> (int \<times> state) run" where
  "rebx_remove_param hdr object param_name s =
     (case rebx_get_object_type hdr s object of
        Inl e \<Rightarrow> Some (Inl e)
      | Inr REBX_TYPE_EFFECT \<Rightarrow>
         (case deref_effect s object of
            Inl e \<Rightarrow> Some (Inl e)
          | Inr eff \<Rightarrow>
             (case deref_param (params s) (e_ap eff) of
                Inl e \<Rightarrow> Some (Inl e)
              | Inr n \<Rightarrow>
                 if pr_hash n = reb_hash hdr param_name
                 then (case set_effect_ap object (pr_next n) s of
                         Inl e \<Rightarrow> Some (Inl e)
                       | Inr s1 \<Rightarrow> Some (Inr (1, s1)))
                 else scan_rest (reb_hash hdr param_name) (e_ap eff) s))
      | Inr REBX_TYPE_PARTICLE \<Rightarrow>
         (case particle_ap s object of
            Inl e \<Rightarrow> Some (Inl e)
          | Inr head \<Rightarrow>
             (case deref_param (params s) head of
                Inl e \<Rightarrow> Some (Inl e)
              | Inr n \<Rightarrow>
                 if pr_hash n = reb_hash hdr param_name
                 then (case set_particle_ap object (pr_next n) s of
                         Inl e \<Rightarrow> Some (Inl e)
                       | Inr s1 \<Rightarrow> Some (Inr (1, s1)))
                 else scan_rest (reb_hash hdr param_name) head s)))"

definition malloc_block :: "nat \<Rightarrow> state \<Rightarrow> addr \<times> state" where
  \<comment> \<open>\<^verbatim>\<open>malloc(n)\<close> for raw storage\<close>
  "malloc_block n s = (case malloc s of (a, s1) \<Rightarrow>
       if a = NULL then (NULL, s1)
       else (a, s1\<lparr>blocks := (blocks s1)(a \<mapsto> \<lparr>bytes = n, cells = []\<rparr>)\<rparr>))"

definition memcpy_shape :: "addr \<Rightarrow> int list \<Rightarrow> nat \<Rightarrow> state \<Rightarrow> stop + state" where
  \<comment> \<open>\<^verbatim>\<open>memcpy(newparam->shape, shape, shapesize)\<close>\<close>
  "memcpy_shape dest shape shapesize s =
     (if shapesize = 0 then Inr s
      else if sizeof_int * length shape < shapesize then Inl (UB OutOfBounds)
      else (case deref (blocks s) dest of
        Inl e \<Rightarrow> Inl e
      | Inr b \<Rightarrow>
         Inr (s\<lparr>blocks := (blocks s)(dest \<mapsto>
                  b\<lparr>cells := map IntCell (take (shapesize div sizeof_int) shape)\<rparr>)\<rparr>)))"

fun size_loop :: "int \<Rightarrow> int list \<Rightarrow> stop + int" where
  \<comment> \<open>\<^verbatim>\<open>size *= shape[i]\<close> in \<^verbatim>\<open>int\<close>\<close>
  "size_loop sz [] = Inr sz"
| "size_loop sz (x # xs) =
     (if INT_MIN \<le> sz * x \<and> sz * x \<le> INT_MAX then size_loop (sz * x) xs
      else Inl (UB SignedOverflow))"

definition sizeof_type :: "rebx_param_type \<Rightarrow> nat" where
  "sizeof_type t = (case t of REBX_TYPE_DOUBLE \<Rightarrow> sizeof_double | REBX_TYPE_INT \<Rightarrow> sizeof_int)"

definition already_exists :: "string \<Rightarrow> string" where
  "already_exists param_name =
     ''REBOUNDx Error: Parameter '' @ [CHR 0x27] @ param_name @ [CHR 0x27]
       @ '' passed to rebx_add_param already exists.'' @ [CHR 0x0A]"

text \<open>\<^verbatim>\<open>rebx_add_param_\<close> (a name cannot end in an underscore here).\<close>

definition rebx_add_param_nd ::
  "header \<Rightarrow> addr \<Rightarrow> string \<Rightarrow> rebx_param_type \<Rightarrow> int \<Rightarrow> int list \<Rightarrow> state \<Rightarrow> (addr \<times> state) run" where
  "rebx_add_param_nd hdr object param_name param_type ndim shape s =
     bind_run (rebx_get_param hdr object param_name s) (\<lambda>ptr.
       if ptr \<noteq> NULL then
         lift (case sprintf 300 (already_exists param_name) of
                 Inl e \<Rightarrow> Inl e
               | Inr str \<Rightarrow>
                  (case rebx_get_sim hdr s object of
                     Inl e \<Rightarrow> Inl e
                   | Inr _ \<Rightarrow> Inr (NULL, reb_error str s)))
       else
         lift (case malloc s of (newparam0, s1) \<Rightarrow>
          (case rebx_validate_ap_address hdr newparam0 s1 of
             Inl e \<Rightarrow> Inl e
           | Inr (newparam, s2) \<Rightarrow>
          (case writable s2 newparam of
             Inl e \<Rightarrow> Inl e
           | Inr _ \<Rightarrow>
          (case malloc_block (size_t_mul sizeof_int ndim) s2 of (shp, s3) \<Rightarrow>
          (case memcpy_shape shp shape (size_t_mul sizeof_int ndim) s3 of
             Inl e \<Rightarrow> Inl e
           | Inr s4 \<Rightarrow>
          (case size_loop 1 (take (nat ndim) shape) of
             Inl e \<Rightarrow> Inl e
           | Inr sz \<Rightarrow>
          (case malloc_block (size_t_mul (sizeof_type param_type) sz) s4 of (contents, s5) \<Rightarrow>
          (let node = \<lparr>pr_hash = reb_hash hdr param_name, pr_param_type = param_type,
                       pr_ndim = ndim, pr_shape = shp, pr_size = sz,
                       pr_contents = contents, pr_next = NULL\<rparr>
           in (case rebx_get_object_type hdr s5 object of
             Inl e \<Rightarrow> Inl e
           | Inr REBX_TYPE_EFFECT \<Rightarrow>
               (case deref_effect s5 object of
                  Inl e \<Rightarrow> Inl e
                | Inr eff \<Rightarrow>
                   (case set_effect_ap object newparam
                           (s5\<lparr>params := (params s5)(newparam \<mapsto> node\<lparr>pr_next := e_ap eff\<rparr>)\<rparr>) of
                      Inl e \<Rightarrow> Inl e
                    | Inr s6 \<Rightarrow> Inr (contents, s6)))
           | Inr REBX_TYPE_PARTICLE \<Rightarrow>
               (case particle_ap s5 object of
                  Inl e \<Rightarrow> Inl e
                | Inr head \<Rightarrow>
                   (case set_particle_ap object newparam
                           (s5\<lparr>params := (params s5)(newparam \<mapsto> node\<lparr>pr_next := head\<rparr>)\<rparr>) of
                      Inl e \<Rightarrow> Inl e
                    | Inr s6 \<Rightarrow> Inr (contents, s6)))))))))))))"

definition rebx_add_param ::
  "header \<Rightarrow> addr \<Rightarrow> string \<Rightarrow> rebx_param_type \<Rightarrow> state \<Rightarrow> (addr \<times> state) run" where
  "rebx_add_param hdr object param_name param_type s =
     rebx_add_param_nd hdr object param_name param_type 1 [1] s"

definition rebx_add_param1d ::
  "header \<Rightarrow> addr \<Rightarrow> string \<Rightarrow> rebx_param_type \<Rightarrow> int \<Rightarrow> state \<Rightarrow> (addr \<times> state) run" where
  "rebx_add_param1d hdr object param_name param_type len s =
     rebx_add_param_nd hdr object param_name param_type 1 [len] s"

definition rebx_add_param2d ::
  "header \<Rightarrow> addr \<Rightarrow> string \<Rightarrow> rebx_param_type \<Rightarrow> int \<Rightarrow> int \<Rightarrow> state \<Rightarrow> (addr \<times> state) run" where
  "rebx_add_param2d hdr object param_name param_type ncols nrows s =
     rebx_add_param_nd hdr object param_name param_type 2 [ncols, nrows] s"

text \<open>
  What a caller does with the handle that \<^verbatim>\<open>rebx_add_param_\<close> or \<^verbatim>\<open>rebx_get_param\<close>
  returned: it writes the elements through it, or reads them.
\<close>

definition write_cells :: "addr \<Rightarrow> nat \<Rightarrow> cell list \<Rightarrow> state \<Rightarrow> stop + state" where
  \<comment> \<open>\<open>k\<close> is the size of one element in bytes\<close>
  "write_cells ptr k vs s = (case deref (blocks s) ptr of
       Inl e \<Rightarrow> Inl e
     | Inr b \<Rightarrow> if k * length vs \<le> bytes b
                 then Inr (s\<lparr>blocks := (blocks s)(ptr \<mapsto> b\<lparr>cells := vs\<rparr>)\<rparr>)
                 else Inl (UB OutOfBounds))"

definition read_cells :: "addr \<Rightarrow> state \<Rightarrow> stop + cell list" where
  "read_cells ptr s = (case deref (blocks s) ptr of
       Inl e \<Rightarrow> Inl e
     | Inr b \<Rightarrow> Inr (cells b))"

subsection \<open>Registrations and test callbacks\<close>

text \<open>
  The callback of the dispatch-order property: it appends the identity (the name hash) of
  the effect it is called on to the shared trace.
\<close>

definition tracer :: exec where
  "tracer f s effect = (case objects s effect of
       Some (Effect e) \<Rightarrow> s\<lparr>trace := trace s @ [e_hash e]\<rparr>
     | _ \<Rightarrow> s)"

text \<open>The three ways to register an effect, and a sequence of registrations.\<close>

datatype registration =
  Add string | Add_custom_force string fnptr int | Add_custom_ptm string fnptr

fun register :: "header \<Rightarrow> addr \<Rightarrow> registration \<Rightarrow> state \<Rightarrow> stop + (addr \<times> state)" where
  "register hdr rebx (Add name) s = rebx_add hdr rebx name s"
| "register hdr rebx (Add_custom_force name f v) s = rebx_add_custom_force hdr rebx name f v s"
| "register hdr rebx (Add_custom_ptm name f) s =
     rebx_add_custom_post_timestep_modification hdr rebx name f s"

fun register_all :: "header \<Rightarrow> addr \<Rightarrow> registration list \<Rightarrow> state \<Rightarrow> stop + state" where
  "register_all hdr rebx [] s = Inr s"
| "register_all hdr rebx (r # rs) s =
     (case register hdr rebx r s of
        Inl e \<Rightarrow> Inl e
      | Inr (effect, s1) \<Rightarrow> register_all hdr rebx rs s1)"

fun name_of :: "registration \<Rightarrow> string" where
  "name_of (Add name) = name"
| "name_of (Add_custom_force name f v) = name"
| "name_of (Add_custom_ptm name f) = name"

fun force_of :: "registration \<Rightarrow> fnptr" where
  "force_of (Add_custom_force name f v) = f"
| "force_of _ = None"

fun ptm_of :: "registration \<Rightarrow> fnptr" where
  "ptm_of (Add_custom_ptm name f) = f"
| "ptm_of _ = None"

definition with_force :: "header \<Rightarrow> registration list \<Rightarrow> u32 list" where
  \<comment> \<open>the identities of the registrations with a force callback, in registration order\<close>
  "with_force hdr regs =
     map (\<lambda>r. reb_hash hdr (name_of r)) (filter (\<lambda>r. force_of r \<noteq> None) regs)"

definition with_ptm :: "header \<Rightarrow> registration list \<Rightarrow> u32 list" where
  "with_ptm hdr regs =
     map (\<lambda>r. reb_hash hdr (name_of r)) (filter (\<lambda>r. ptm_of r \<noteq> None) regs)"

text \<open>
  \<open>chain s p as\<close>: in state \<open>s\<close> the registry that starts at pointer \<open>p\<close> runs through the
  effects at the addresses \<open>as\<close>, in this order, and ends with \<^verbatim>\<open>NULL\<close>.
\<close>

fun chain :: "state \<Rightarrow> addr \<Rightarrow> addr list \<Rightarrow> bool" where
  "chain s p [] \<longleftrightarrow> p = NULL"
| "chain s p (a # as) \<longleftrightarrow> p = a \<and> a \<noteq> NULL \<and>
     (case objects s a of Some (Effect e) \<Rightarrow> chain s (e_next e) as | _ \<Rightarrow> False)"

fun chain_hashes :: "(rebx_effect \<Rightarrow> fnptr) \<Rightarrow> state \<Rightarrow> addr list \<Rightarrow> u32 list" where
  "chain_hashes cb s [] = []"
| "chain_hashes cb s (a # as) =
     (case objects s a of
        Some (Effect e) \<Rightarrow> (if cb e \<noteq> None then [e_hash e] else []) @ chain_hashes cb s as
      | _ \<Rightarrow> chain_hashes cb s as)"

subsection \<open>Parameter stores\<close>

text \<open>
  \<open>nodes h p as\<close>: in the heap \<open>h\<close> the list that starts at pointer \<open>p\<close> runs through the
  allocated nodes at the addresses \<open>as\<close>, in this order, and ends with \<^verbatim>\<open>NULL\<close>.
  \<open>store hdr s object as\<close>: \<open>object\<close> is a particle that does not carry the effect tag, or
  an effect that does, and the nodes of its parameter list are \<open>as\<close>.
\<close>

fun nodes :: "(addr \<rightharpoonup> rebx_param) \<Rightarrow> addr \<Rightarrow> addr list \<Rightarrow> bool" where
  "nodes h p [] \<longleftrightarrow> p = NULL"
| "nodes h p (a # as) \<longleftrightarrow> p = a \<and> a \<noteq> NULL \<and>
     (case h a of Some n \<Rightarrow> nodes h (pr_next n) as | None \<Rightarrow> False)"

definition store :: "header \<Rightarrow> state \<Rightarrow> addr \<Rightarrow> addr list \<Rightarrow> bool" where
  "store hdr s object as = (object \<noteq> NULL \<and> (case objects s object of
       None \<Rightarrow> False
     | Some (Particle p) \<Rightarrow> p_ap p \<noteq> EFFECT_value hdr \<and> nodes (params s) (p_ap p) as
     | Some (Effect e) \<Rightarrow> e_particle_ap e = EFFECT_value hdr \<and> nodes (params s) (e_ap e) as))"

definition hashes :: "(addr \<rightharpoonup> rebx_param) \<Rightarrow> addr list \<Rightarrow> u32 option list" where
  \<comment> \<open>the name hashes of the nodes at the addresses \<open>as\<close>\<close>
  "hashes h as = map (\<lambda>a. map_option pr_hash (h a)) as"

text \<open>Attachments and removals on one object, run until the first that does not return.\<close>

datatype store_op = Attach string rebx_param_type int "int list" | Remove string

fun apply_op :: "header \<Rightarrow> addr \<Rightarrow> store_op \<Rightarrow> state \<Rightarrow> state run" where
  "apply_op hdr object (Attach name t ndim shape) s =
     bind_run (rebx_add_param_nd hdr object name t ndim shape s) (\<lambda>(ptr, s1). Some (Inr s1))"
| "apply_op hdr object (Remove name) s =
     bind_run (rebx_remove_param hdr object name s) (\<lambda>(r, s1). Some (Inr s1))"

fun apply_ops :: "header \<Rightarrow> addr \<Rightarrow> store_op list \<Rightarrow> state \<Rightarrow> state run" where
  "apply_ops hdr object [] s = Some (Inr s)"
| "apply_ops hdr object (x # xs) s = bind_run (apply_op hdr object x s) (apply_ops hdr object xs)"

text \<open>
  \<open>kept s' s\<close>: what \<open>s'\<close> holds of objects, extras and ledger entries, \<open>s\<close> held already,
  and nothing was reported in between.
\<close>

definition kept :: "state \<Rightarrow> state \<Rightarrow> bool" where
  "kept s' s \<longleftrightarrow> objects s' \<subseteq>\<^sub>m objects s \<and> extras s' \<subseteq>\<^sub>m extras s
     \<and> to_be_freed s' \<subseteq>\<^sub>m to_be_freed s \<and> messages s' = messages s"

subsection \<open>A concrete run\<close>

text \<open>
  Closed instances need a header and a starting state. The hash of the fixtures is a
  stand-in for the host's (names of different lengths get different hashes); the tags are
  \<^verbatim>\<open>INT_MAX-2\<close> and \<^verbatim>\<open>INT_MAX-1\<close>. \<open>boot\<close> is a simulation before \<^verbatim>\<open>rebx_init\<close>,
  with one particle at address 512 and an allocator that will hand out 4096, 4160, ...
\<close>

definition hdr0 :: header where
  "hdr0 = \<lparr>reb_hash = (\<lambda>name. of_nat (length name)),
           EFFECT_value = 2147483645, PARTICLE_value = 2147483646\<rparr>"

definition boot :: state where
  "boot = \<lparr>sim_extras = NULL, additional_forces = None, post_timestep_modifications = None,
           force_is_velocity_dependent = 0, messages = [],
           extras = Map.empty, objects = [512 \<mapsto> Particle \<lparr>p_ap = NULL\<rparr>],
           params = Map.empty, to_be_freed = Map.empty, blocks = Map.empty,
           pool = [4096, 4160, 4224, 4288, 4352, 4416, 4480, 4544], live = [], trace = []\<rparr>"

definition ready :: state where
  \<comment> \<open>\<open>boot\<close> after \<^verbatim>\<open>rebx_init\<close>\<close>
  "ready = boot\<lparr>sim_extras := 4096, additional_forces := Some Rebx_forces,
                post_timestep_modifications := Some Rebx_post_timestep_modifications,
                extras := [4096 \<mapsto> \<lparr>x_effects = NULL, x_params_to_be_freed = NULL\<rparr>],
                pool := [4160, 4224, 4288, 4352, 4416, 4480, 4544], live := [4096]\<rparr>"

definition three_forces :: "registration list" where
  "three_forces = [Add_custom_force ''A'' (Some 1) 0, Add_custom_force ''BB'' (Some 2) 0,
                   Add_custom_force ''CCC'' (Some 3) 0]"

definition three_ptms :: "registration list" where
  "three_ptms = [Add_custom_ptm ''A'' (Some 1), Add_custom_ptm ''BB'' (Some 2),
                 Add_custom_ptm ''CCC'' (Some 3)]"

definition after_three_forces :: state where
  "after_three_forces = projr (register_all hdr0 4096 three_forces ready)"

definition after_three_ptms :: state where
  "after_three_ptms = projr (register_all hdr0 4096 three_ptms ready)"




definition attached :: state where
  \<comment> \<open>\<open>ready\<close> after \<^verbatim>\<open>rebx_add_param(&particle, "td_EB0", REBX_TYPE_DOUBLE)\<close>\<close>
  "attached = ready\<lparr>objects := [512 \<mapsto> Particle \<lparr>p_ap = 4160\<rparr>],
      params := [4160 \<mapsto> \<lparr>pr_hash = 6, pr_param_type = REBX_TYPE_DOUBLE, pr_ndim = 1,
                           pr_shape = 4224, pr_size = 1, pr_contents = 4288, pr_next = NULL\<rparr>],
      blocks := [4224 \<mapsto> \<lparr>bytes = 4, cells = [IntCell 1]\<rparr>, 4288 \<mapsto> \<lparr>bytes = 8, cells = []\<rparr>],
      pool := [4352, 4416, 4480, 4544], live := [4288, 4224, 4160, 4096]\<rparr>"

definition long_name :: string where
  "long_name = replicate 230 (CHR ''a'')"

definition attached_long :: state where
  \<comment> \<open>\<open>ready\<close> after \<^verbatim>\<open>rebx_add_param(&particle, long_name, REBX_TYPE_DOUBLE)\<close>\<close>
  "attached_long = ready\<lparr>objects := [512 \<mapsto> Particle \<lparr>p_ap = 4160\<rparr>],
      params := [4160 \<mapsto> \<lparr>pr_hash = 230, pr_param_type = REBX_TYPE_DOUBLE, pr_ndim = 1,
                           pr_shape = 4224, pr_size = 1, pr_contents = 4288, pr_next = NULL\<rparr>],
      blocks := [4224 \<mapsto> \<lparr>bytes = 4, cells = [IntCell 1]\<rparr>, 4288 \<mapsto> \<lparr>bytes = 8, cells = []\<rparr>],
      pool := [4352, 4416, 4480, 4544], live := [4288, 4224, 4160, 4096]\<rparr>"

definition with_effect :: state where
  \<comment> \<open>\<open>ready\<close> after \<^verbatim>\<open>rebx_add(rebx, "gr")\<close>\<close>
  "with_effect = ready\<lparr>
      extras := [4096 \<mapsto> \<lparr>x_effects = 4160, x_params_to_be_freed = NULL\<rparr>],
      objects := [512 \<mapsto> Particle \<lparr>p_ap = NULL\<rparr>,
                  4160 \<mapsto> Effect \<lparr>e_hash = 2, e_ap = NULL, e_force = None, e_ptm = None,
                                  e_rebx = 4096, e_next = NULL, e_particle_ap = 2147483645\<rparr>],
      pool := [4224, 4288, 4352, 4416, 4480, 4544], live := [4160, 4096]\<rparr>"

section \<open>Properties\<close>

subsection \<open>Basic facts\<close>

lemma rebx_init_boot: "rebx_init boot = Inr (4096, ready)"
  by (simp add: rebx_init_def rebx_initialize_def deref_extras_def deref_def malloc_def
      boot_def ready_def Let_def)

lemma bind_run_simps [simp]:
  "bind_run None f = None"
  "bind_run (Some (Inl e)) f = Some (Inl e)"
  "bind_run (Some (Inr x)) f = f x"
  by (simp_all add: bind_run_def)

lemma bind_run_eq_Some_Inr:
  "bind_run m f = Some (Inr y) \<longleftrightarrow> (\<exists>x. m = Some (Inr x) \<and> f x = Some (Inr y))"
  by (auto simp: bind_run_def split: option.splits sum.splits)

subsection \<open>Detaching from the simulation\<close>

text \<open>
  C9. \<^verbatim>\<open>rebx_remove_from_simulation\<close> sets both per-step callback slots of the host
  simulation to \<^verbatim>\<open>NULL\<close> and changes nothing else: the registry and the ledger (in
  \<open>extras\<close>), the effects and particles with their list heads, the parameter nodes, the
  ledger entries, the raw storage and the set of live allocations are the same afterwards,
  so nothing was freed.
\<close>

theorem rebx_remove_from_simulation_frame:
  "additional_forces (rebx_remove_from_simulation s) = None
   \<and> post_timestep_modifications (rebx_remove_from_simulation s) = None
   \<and> sim_extras (rebx_remove_from_simulation s) = sim_extras s
   \<and> force_is_velocity_dependent (rebx_remove_from_simulation s) = force_is_velocity_dependent s
   \<and> messages (rebx_remove_from_simulation s) = messages s
   \<and> extras (rebx_remove_from_simulation s) = extras s
   \<and> objects (rebx_remove_from_simulation s) = objects s
   \<and> params (rebx_remove_from_simulation s) = params s
   \<and> to_be_freed (rebx_remove_from_simulation s) = to_be_freed s
   \<and> blocks (rebx_remove_from_simulation s) = blocks s
   \<and> pool (rebx_remove_from_simulation s) = pool s
   \<and> live (rebx_remove_from_simulation s) = live s
   \<and> trace (rebx_remove_from_simulation s) = trace s"
  by (simp add: rebx_remove_from_simulation_def)

subsection \<open>Registering an effect by name\<close>

text \<open>
  C6, as stated, fails. In the source the table from builtin names to callbacks, with its
  final \<^verbatim>\<open>reb_error\<close> for a name that is not in it, is inside a comment. Registering
  \<^verbatim>\<open>gr\<close> (velocity dependent in that table) leaves the force callback \<^verbatim>\<open>NULL\<close> and the
  flag 0, and registering a name that no table knows reports nothing and returns the
  unwired effect.
\<close>

theorem rebx_add_builtin_counterexample:
  "map_sum id fst (rebx_add hdr0 4096 ''gr'' ready) = Inr 4160
   \<and> map_option (e_force \<circ> (\<lambda>ob. case ob of Effect e \<Rightarrow> e))
        (objects (snd (projr (rebx_add hdr0 4096 ''gr'' ready))) 4160) = Some None
   \<and> force_is_velocity_dependent (snd (projr (rebx_add hdr0 4096 ''gr'' ready))) = 0
   \<and> map_sum id fst (rebx_add hdr0 4096 ''no_such_effect'' ready) = Inr 4160
   \<and> messages (snd (projr (rebx_add hdr0 4096 ''no_such_effect'' ready))) = []"
  by (simp add: rebx_add_def rebx_add_effect_def malloc_def writable_def deref_extras_def deref_def
      ready_def boot_def hdr0_def)

text \<open>
  C6, amended. For every name, \<^verbatim>\<open>rebx_add\<close> does what \<^verbatim>\<open>rebx_add_effect\<close> does and
  no more: when the allocator has an address, the effect there carries the hash of the
  name, an empty parameter list and two \<^verbatim>\<open>NULL\<close> callbacks, it is the new head of the
  registry, no message is reported and the velocity-dependence flag is as before.
\<close>

theorem rebx_add_unwired:
  assumes "extras s rebx = Some x" and "rebx \<noteq> NULL" and "pool s = a # rest" and "a \<noteq> NULL"
  shows "\<exists>s1 eff. rebx_add hdr rebx name s = Inr (a, s1)
           \<and> rebx_add hdr rebx name s = rebx_add_effect hdr rebx name s
           \<and> objects s1 a = Some (Effect eff)
           \<and> e_hash eff = reb_hash hdr name \<and> e_force eff = None \<and> e_ptm eff = None
           \<and> e_ap eff = NULL \<and> e_next eff = x_effects x
           \<and> map_option x_effects (extras s1 rebx) = Some a
           \<and> messages s1 = messages s
           \<and> force_is_velocity_dependent s1 = force_is_velocity_dependent s"
  using assms
  by (simp add: rebx_add_def rebx_add_effect_def malloc_def writable_def deref_extras_def deref_def)

theorem rebx_add_unwired_witness:
  "\<exists>s1 eff. rebx_add hdr0 4096 ''gr'' ready = Inr (4160, s1)
           \<and> objects s1 4160 = Some (Effect eff)
           \<and> e_force eff = None \<and> e_ptm eff = None
           \<and> messages s1 = [] \<and> force_is_velocity_dependent s1 = 0"
proof -
  have x: "extras ready 4096 = Some \<lparr>x_effects = NULL, x_params_to_be_freed = NULL\<rparr>"
    by (simp add: ready_def)
  have p: "pool ready = 4160 # [4224, 4288, 4352, 4416, 4480, 4544]"
    by (simp add: ready_def)
  have m: "messages ready = []" "force_is_velocity_dependent ready = 0"
    by (simp_all add: ready_def boot_def)
  from rebx_add_unwired [OF x _ p, of hdr0 "''gr''"] m show ?thesis
    by auto
qed

subsection \<open>Dispatch order\<close>

lemma chain_trace [simp]: "chain (s\<lparr>trace := t\<rparr>) p as = chain s p as"
  by (induction as arbitrary: p) (auto split: option.splits object.splits)

lemma chain_hashes_trace [simp]: "chain_hashes cb (s\<lparr>trace := t\<rparr>) as = chain_hashes cb s as"
  by (induction as) (auto split: option.splits object.splits)

lemma forces_loop_chain:
  "chain s p as \<Longrightarrow>
   forces_loop tracer p s = Some (Inr (s\<lparr>trace := trace s @ chain_hashes e_force s as\<rparr>))"
proof (induction as arbitrary: s p)
  case Nil
  then show ?case by (subst forces_loop.simps) simp
next
  case (Cons a as)
  from Cons.prems obtain e where e: "p = a" "a \<noteq> NULL" "objects s a = Some (Effect e)"
    "chain s (e_next e) as"
    by (auto split: option.splits object.splits)
  show ?case
  proof (cases "e_force e")
    case None
    with e Cons.IH [of s "e_next e"] show ?thesis
      by (subst forces_loop.simps) (simp add: deref_effect_def deref_def)
  next
    case (Some f)
    have step: "tracer f s a = s\<lparr>trace := trace s @ [e_hash e]\<rparr>"
      using e by (simp add: tracer_def)
    have "chain (s\<lparr>trace := trace s @ [e_hash e]\<rparr>) (e_next e) as" using e by simp
    from Cons.IH [OF this] e Some step show ?thesis
      by (subst forces_loop.simps) (simp add: deref_effect_def deref_def)
  qed
qed


lemma ptm_loop_chain:
  "chain s p as \<Longrightarrow>
   ptm_loop tracer p s = Some (Inr (s\<lparr>trace := trace s @ chain_hashes e_ptm s as\<rparr>))"
proof (induction as arbitrary: s p)
  case Nil
  then show ?case by (subst ptm_loop.simps) simp
next
  case (Cons a as)
  from Cons.prems obtain e where e: "p = a" "a \<noteq> NULL" "objects s a = Some (Effect e)"
    "chain s (e_next e) as"
    by (auto split: option.splits object.splits)
  show ?case
  proof (cases "e_ptm e")
    case None
    with e Cons.IH [of s "e_next e"] show ?thesis
      by (subst ptm_loop.simps) (simp add: deref_effect_def deref_def)
  next
    case (Some f)
    have step: "tracer f s a = s\<lparr>trace := trace s @ [e_hash e]\<rparr>"
      using e by (simp add: tracer_def)
    have "chain (s\<lparr>trace := trace s @ [e_hash e]\<rparr>) (e_next e) as" using e by simp
    from Cons.IH [OF this] e Some step show ?thesis
      by (subst ptm_loop.simps) (simp add: deref_effect_def deref_def)
  qed
qed

lemma chain_objects_upd:
  "a \<notin> set as \<Longrightarrow> chain (s\<lparr>objects := (objects s)(a \<mapsto> v)\<rparr>) p as = chain s p as"
  by (induction as arbitrary: p) (auto split: option.splits object.splits)

lemma chain_hashes_objects_upd:
  "a \<notin> set as \<Longrightarrow> chain_hashes cb (s\<lparr>objects := (objects s)(a \<mapsto> v)\<rparr>) as = chain_hashes cb s as"
  by (induction as) (auto split: option.splits object.splits)

lemma chain_cong:
  "objects s' = objects s \<Longrightarrow> chain s' p as = chain s p as"
  by (induction as arbitrary: p) (auto split: option.splits object.splits)

lemma chain_hashes_cong:
  "objects s' = objects s \<Longrightarrow> chain_hashes cb s' as = chain_hashes cb s as"
  by (induction as) (auto split: option.splits object.splits)

lemma register_step:
  assumes "extras s rebx = Some x" and "rebx \<noteq> NULL" and "pool s = a # rest" and "a \<noteq> NULL"
  shows "\<exists>s1 e. register hdr rebx r s = Inr (a, s1)
     \<and> objects s1 = (objects s)(a \<mapsto> Effect e)
     \<and> e_hash e = reb_hash hdr (name_of r) \<and> e_force e = force_of r \<and> e_ptm e = ptm_of r
     \<and> e_next e = x_effects x
     \<and> extras s1 rebx = Some (x\<lparr>x_effects := a\<rparr>)
     \<and> pool s1 = rest \<and> trace s1 = trace s \<and> sim_extras s1 = sim_extras s"
  using assms
  by (cases r)
     (auto simp: rebx_add_def rebx_add_custom_force_def rebx_add_custom_post_timestep_modification_def
        rebx_add_effect_def malloc_def writable_def deref_extras_def deref_def set_force_def set_ptm_def Let_def)


lemma register_all_chain:
  assumes "extras s rebx = Some x" and "rebx \<noteq> NULL" and "chain s (x_effects x) bs"
    and "pool s = as @ rest" and "length as = length regs"
    and "distinct as" and "NULL \<notin> set as" and "set as \<inter> set bs = {}"
  shows "\<exists>s1 x1. register_all hdr rebx regs s = Inr s1 \<and> extras s1 rebx = Some x1
     \<and> chain s1 (x_effects x1) (rev as @ bs)
     \<and> chain_hashes e_force s1 (rev as @ bs) = rev (with_force hdr regs) @ chain_hashes e_force s bs
     \<and> chain_hashes e_ptm s1 (rev as @ bs) = rev (with_ptm hdr regs) @ chain_hashes e_ptm s bs
     \<and> pool s1 = rest \<and> trace s1 = trace s \<and> sim_extras s1 = sim_extras s"
  using assms
proof (induction regs arbitrary: s x as bs)
  case Nil
  then show ?case by (simp add: with_force_def with_ptm_def)
next
  case (Cons r regs)
  from Cons.prems obtain a as' where as: "as = a # as'" by (cases as) auto
  with Cons.prems have a: "pool s = a # (as' @ rest)" "a \<noteq> NULL" "a \<notin> set bs" "a \<notin> set as'"
    by auto
  from register_step [OF Cons.prems(1,2) a(1) a(2), of hdr r]
  obtain s1 e where s1: "register hdr rebx r s = Inr (a, s1)"
    "objects s1 = (objects s)(a \<mapsto> Effect e)"
    "e_hash e = reb_hash hdr (name_of r)" "e_force e = force_of r" "e_ptm e = ptm_of r"
    "e_next e = x_effects x" "extras s1 rebx = Some (x\<lparr>x_effects := a\<rparr>)"
    "pool s1 = as' @ rest" "trace s1 = trace s" "sim_extras s1 = sim_extras s"
    by blast
  have upd: "chain s1 p cs = chain (s\<lparr>objects := (objects s)(a \<mapsto> Effect e)\<rparr>) p cs"
    "chain_hashes cb s1 cs = chain_hashes cb (s\<lparr>objects := (objects s)(a \<mapsto> Effect e)\<rparr>) cs"
    for p cs cb
    using s1(2) by (simp_all add: chain_cong chain_hashes_cong)
  have bs: "chain s1 (x_effects x) bs" "chain_hashes cb s1 bs = chain_hashes cb s bs" for cb
    using Cons.prems(3) a(3) by (simp_all add: upd chain_objects_upd chain_hashes_objects_upd)
  have c1: "chain s1 (x_effects (x\<lparr>x_effects := a\<rparr>)) (a # bs)"
    using bs(1) s1(2,6) a(2) by simp
  have h1: "chain_hashes e_force s1 (a # bs)
            = (if force_of r \<noteq> None then [reb_hash hdr (name_of r)] else []) @ chain_hashes e_force s bs"
    "chain_hashes e_ptm s1 (a # bs)
            = (if ptm_of r \<noteq> None then [reb_hash hdr (name_of r)] else []) @ chain_hashes e_ptm s bs"
    using bs(2) s1(2-5) by simp_all
  have pre: "length as' = length regs" "distinct as'" "NULL \<notin> set as'" "set as' \<inter> set (a # bs) = {}"
    using Cons.prems as by auto
  from Cons.IH [OF s1(7) Cons.prems(2) c1 s1(8) pre]
  obtain s2 x2 where s2: "register_all hdr rebx regs s1 = Inr s2" "extras s2 rebx = Some x2"
    "chain s2 (x_effects x2) (rev as' @ a # bs)"
    "chain_hashes e_force s2 (rev as' @ a # bs) = rev (with_force hdr regs) @ chain_hashes e_force s1 (a # bs)"
    "chain_hashes e_ptm s2 (rev as' @ a # bs) = rev (with_ptm hdr regs) @ chain_hashes e_ptm s1 (a # bs)"
    "pool s2 = rest" "trace s2 = trace s1" "sim_extras s2 = sim_extras s1"
    by blast
  show ?case
    using s1(1,9,10) s2 h1 as by (simp add: with_force_def with_ptm_def)
qed

lemma dispatch_after_registration:
  assumes "extras s rebx = Some x" and "rebx \<noteq> NULL"
    and "x_effects x = NULL" and "sim_extras s = rebx"
    and "pool s = as @ rest" and "length as = length regs"
    and "distinct as" and "NULL \<notin> set as"
  shows "\<exists>s1. register_all hdr rebx regs s = Inr s1
     \<and> rebx_forces tracer s1 = Some (Inr (s1\<lparr>trace := trace s @ rev (with_force hdr regs)\<rparr>))
     \<and> rebx_post_timestep_modifications tracer s1
         = Some (Inr (s1\<lparr>trace := trace s @ rev (with_ptm hdr regs)\<rparr>))"
proof -
  have "chain s (x_effects x) []" using assms(3) by simp
  from register_all_chain [OF assms(1,2) this assms(5-8), of hdr]
  obtain s1 x1 where s1: "register_all hdr rebx regs s = Inr s1" "extras s1 rebx = Some x1"
    "chain s1 (x_effects x1) (rev as)"
    "chain_hashes e_force s1 (rev as) = rev (with_force hdr regs)"
    "chain_hashes e_ptm s1 (rev as) = rev (with_ptm hdr regs)"
    "trace s1 = trace s" "sim_extras s1 = sim_extras s"
    by auto
  have "rebx_forces tracer s1 = Some (Inr (s1\<lparr>trace := trace s @ rev (with_force hdr regs)\<rparr>))"
    using s1 assms(2,4) forces_loop_chain [OF s1(3)]
    by (simp add: rebx_forces_def deref_extras_def deref_def)
  moreover have "rebx_post_timestep_modifications tracer s1
      = Some (Inr (s1\<lparr>trace := trace s @ rev (with_ptm hdr regs)\<rparr>))"
    using s1 assms(2,4) ptm_loop_chain [OF s1(3)]
    by (simp add: rebx_post_timestep_modifications_def deref_extras_def deref_def)
  ultimately show ?thesis using s1(1) by blast
qed

lemma ready_facts:
  "extras ready 4096 = Some \<lparr>x_effects = NULL, x_params_to_be_freed = NULL\<rparr>"
  "sim_extras ready = 4096"
  "pool ready = [4160, 4224, 4288] @ [4352, 4416, 4480, 4544]"
  "trace ready = []" "messages ready = []" "force_is_velocity_dependent ready = 0"
  by (simp_all add: ready_def boot_def)

text \<open>
  C1, as stated, fails. \<^verbatim>\<open>rebx_add_effect\<close> puts a new effect at the head of the
  registry and both passes walk from the head. With A, BB, CCC registered in this order
  (hashes 1, 2, 3 under the stand-in hash), each with a callback that appends the hash of
  its effect to the trace, one pass over the forces leaves the trace 3, 2, 1, and so does
  one pass over the post-timestep modifications: the reverse of registration order.
\<close>

theorem dispatch_order_counterexample:
  "register_all hdr0 4096 three_forces ready = Inr after_three_forces
   \<and> map_option (map_sum id trace) (rebx_forces tracer after_three_forces)
       = Some (Inr [3, 2, 1])
   \<and> register_all hdr0 4096 three_ptms ready = Inr after_three_ptms
   \<and> map_option (map_sum id trace) (rebx_post_timestep_modifications tracer after_three_ptms)
       = Some (Inr [3, 2, 1])"
proof -
  have len: "length [4160, 4224, 4288 :: addr] = length three_forces"
    "length [4160, 4224, 4288 :: addr] = length three_ptms"
    by (simp_all add: three_forces_def three_ptms_def)
  have ok: "distinct [4160, 4224, 4288 :: addr]" "NULL \<notin> set [4160, 4224, 4288 :: addr]"
    by simp_all
  from dispatch_after_registration [OF ready_facts(1) _ _ ready_facts(2,3) len(1) ok, of hdr0]
  obtain s1 where s1: "register_all hdr0 4096 three_forces ready = Inr s1"
    "rebx_forces tracer s1 = Some (Inr (s1\<lparr>trace := trace ready @ rev (with_force hdr0 three_forces)\<rparr>))"
    by auto
  from dispatch_after_registration [OF ready_facts(1) _ _ ready_facts(2,3) len(2) ok, of hdr0]
  obtain s2 where s2: "register_all hdr0 4096 three_ptms ready = Inr s2"
    "rebx_post_timestep_modifications tracer s2
       = Some (Inr (s2\<lparr>trace := trace ready @ rev (with_ptm hdr0 three_ptms)\<rparr>))"
    by auto
  have "with_force hdr0 three_forces = [1, 2, 3]" "with_ptm hdr0 three_ptms = [1, 2, 3]"
    by (simp_all add: with_force_def with_ptm_def three_forces_def three_ptms_def hdr0_def)
  with s1 s2 show ?thesis
    by (simp add: after_three_forces_def after_three_ptms_def ready_facts(4))
qed

text \<open>
  C1, amended. Take any sequence of registrations (by \<^verbatim>\<open>rebx_add\<close>,
  \<^verbatim>\<open>rebx_add_custom_force\<close> or \<^verbatim>\<open>rebx_add_custom_post_timestep_modification\<close>) on an empty
  registry, the allocator handing out distinct addresses. All of them succeed, and then a
  single \<^verbatim>\<open>rebx_forces\<close> pass calls the force callbacks that are not \<^verbatim>\<open>NULL\<close> in the
  reverse of registration order, the effect registered last first; separately, a single
  \<^verbatim>\<open>rebx_post_timestep_modifications\<close> pass does the same with the modification
  callbacks. Effects whose callback is \<^verbatim>\<open>NULL\<close> are skipped.
\<close>

theorem dispatch_reverse_registration_order:
  assumes "extras s rebx = Some x" and "rebx \<noteq> NULL"
    and "x_effects x = NULL" and "sim_extras s = rebx"
    and "pool s = as @ rest" and "length as = length regs"
    and "distinct as" and "NULL \<notin> set as"
  shows "\<exists>s1. register_all hdr rebx regs s = Inr s1
     \<and> rebx_forces tracer s1 = Some (Inr (s1\<lparr>trace := trace s @ rev (with_force hdr regs)\<rparr>))
     \<and> rebx_post_timestep_modifications tracer s1
         = Some (Inr (s1\<lparr>trace := trace s @ rev (with_ptm hdr regs)\<rparr>))"
  using assms by (rule dispatch_after_registration)

theorem dispatch_reverse_registration_order_witness:
  "\<exists>s1. register_all hdr0 4096
           [Add_custom_force ''A'' (Some 1) 0, Add_custom_ptm ''BB'' (Some 2), Add ''CCC'',
            Add_custom_force ''DDDD'' (Some 4) 1] ready = Inr s1
     \<and> rebx_forces tracer s1 = Some (Inr (s1\<lparr>trace := [4, 1]\<rparr>))
     \<and> rebx_post_timestep_modifications tracer s1 = Some (Inr (s1\<lparr>trace := [2]\<rparr>))"
proof -
  have p: "pool ready = [4160, 4224, 4288, 4352] @ [4416, 4480, 4544]"
    by (simp add: ready_def)
  have len: "length [4160, 4224, 4288, 4352 :: addr]
      = length [Add_custom_force ''A'' (Some 1) 0, Add_custom_ptm ''BB'' (Some 2), Add ''CCC'',
            Add_custom_force ''DDDD'' (Some 4) 1]"
    by simp
  have ok: "distinct [4160, 4224, 4288, 4352 :: addr]" "NULL \<notin> set [4160, 4224, 4288, 4352 :: addr]"
    by simp_all
  from dispatch_reverse_registration_order [OF ready_facts(1) _ _ ready_facts(2) p len ok, of hdr0]
  show ?thesis
    by (simp add: with_force_def with_ptm_def hdr0_def ready_facts(4))
qed

subsection \<open>The sentinel-address validator\<close>

lemma collides_iff: "collides hdr a \<longleftrightarrow> EFFECT_value hdr \<le> a \<and> a \<le> PARTICLE_value hdr"
  by (auto simp: collides_def list_ex_iff)

lemma retry_loop_result:
  "length address = 5 \<Longrightarrow> i \<le> 5 \<Longrightarrow> retry_loop hdr i address s = Inr (j, address', s')
   \<Longrightarrow> j < 5 \<and> length address' = 5 \<and> \<not> collides hdr (address' ! j)"
proof (induction hdr i address s rule: retry_loop.induct)
  case (1 hdr i address s)
  obtain a s1 where m: "malloc s = (a, s1)" by (cases "malloc s")
  show ?case
  proof (cases "i < 5")
    case True
    show ?thesis
    proof (cases "collides hdr a")
      case c: True
      with "1.prems" True m have "retry_loop hdr (i + 1) (address[i := a]) s1 = Inr (j, address', s')"
        by (subst (asm) retry_loop.simps) simp
      with "1.IH" [of a s1] m c "1.prems" True show ?thesis by simp
    next
      case False
      with "1.prems" True m show ?thesis
        by (subst (asm) retry_loop.simps) auto
    qed
  next
    case False
    with "1.prems" m show ?thesis
      by (subst (asm) retry_loop.simps) simp
  qed
qed

lemma validate_no_collision:
  "rebx_validate_ap_address hdr a s = Inr (a', s') \<Longrightarrow> \<not> collides hdr a'"
  by (auto simp: rebx_validate_ap_address_def split: if_splits sum.splits prod.splits
      dest: retry_loop_result [rotated 2])

lemma validate_pass:
  "\<not> collides hdr a \<Longrightarrow> rebx_validate_ap_address hdr a s = Inr (a, s)"
  by (simp add: rebx_validate_ap_address_def)

lemma validate_never_exits:
  "rebx_validate_ap_address hdr a s \<noteq> Inl (Exit m)"
proof
  assume e: "rebx_validate_ap_address hdr a s = Inl (Exit m)"
  have nf: "free b t \<noteq> Inl (Exit m)" for b t by (simp add: free_def)
  have nfa: "free_all bs t \<noteq> Inl (Exit m)" for bs t
    by (induction bs arbitrary: t) (auto simp: nf split: sum.splits)
  have nr: "retry_loop hdr i address t \<noteq> Inl (Exit m)" for i address t
  proof (induction hdr i address t rule: retry_loop.induct)
    case (1 hdr i address s)
    then show ?case
      by (subst retry_loop.simps) (auto split: prod.splits)
  qed
  from e show False
    by (auto simp: rebx_validate_ap_address_def nf nfa nr split: if_splits sum.splits prod.splits
        dest: retry_loop_result [rotated 2])
qed



subsection \<open>What allocation and release leave alone\<close>

lemma kept_refl [simp]: "kept s s"
  by (simp add: kept_def)

lemma kept_trans: "kept s2 s1 \<Longrightarrow> kept s1 s \<Longrightarrow> kept s2 s"
  by (auto simp: kept_def intro: map_le_trans)


lemma kept_objects: "kept s' s \<Longrightarrow> objects s' x = objects s x \<or> objects s' x = None"
  by (auto simp: kept_def map_le_def dom_def)

lemma malloc_kept: "malloc s = (a, s') \<Longrightarrow> kept s' s"
  by (auto simp: malloc_def kept_def split: list.splits if_splits)

lemma malloc_block_kept: "malloc_block n s = (a, s') \<Longrightarrow> kept s' s"
  by (auto simp: malloc_block_def malloc_def kept_def split: list.splits if_splits prod.splits)

lemma memcpy_shape_kept: "memcpy_shape d sh n s = Inr s' \<Longrightarrow> kept s' s"
  by (auto simp: memcpy_shape_def kept_def split: if_splits sum.splits)

lemma free_kept: "free a s = Inr s' \<Longrightarrow> kept s' s"
  by (auto simp: free_def kept_def map_le_def split: if_splits)

lemma free_all_kept: "free_all as s = Inr s' \<Longrightarrow> kept s' s"
proof (induction as arbitrary: s)
  case (Cons a as)
  then show ?case
    by (auto split: sum.splits dest!: free_kept intro: kept_trans)
qed simp

lemma retry_loop_kept:
  "retry_loop hdr i address s = Inr (j, address', s') \<Longrightarrow> kept s' s"
proof (induction hdr i address s rule: retry_loop.induct)
  case (1 hdr i address s)
  obtain a s1 where m: "malloc s = (a, s1)" by (cases "malloc s")
  show ?case
  proof (cases "i \<le> 5 \<and> i < length address")
    case False
    with "1.prems" m show ?thesis
      by (subst (asm) retry_loop.simps) (auto split: if_splits)
  next
    case True
    show ?thesis
    proof (cases "collides hdr a")
      case c: True
      with "1.prems" True m have "retry_loop hdr (i + 1) (address[i := a]) s1 = Inr (j, address', s')"
        by (subst (asm) retry_loop.simps) simp
      with "1.IH" [of a s1] m c True have "kept s' s1" by simp
      with malloc_kept [OF m] show ?thesis by (blast intro: kept_trans)
    next
      case False
      with "1.prems" True m malloc_kept [OF m] show ?thesis
        by (subst (asm) retry_loop.simps) auto
    qed
  qed
qed

lemma validate_kept:
  assumes "rebx_validate_ap_address hdr a s = Inr (a', s')"
  shows "kept s' s"
proof (cases "collides hdr a")
  case False
  with assms show ?thesis by (simp add: rebx_validate_ap_address_def)
next
  case True
  with assms obtain s1 i address s2 where
    f: "free a s = Inr s1" and r: "retry_loop hdr 0 (replicate 5 NULL) s1 = Inr (i, address, s2)"
    and fa: "free_all (take i address) s2 = Inr s'"
    by (auto simp: rebx_validate_ap_address_def split: if_splits sum.splits prod.splits)
  from free_kept [OF f] retry_loop_kept [OF r] free_all_kept [OF fa] show ?thesis
    by (blast intro: kept_trans)
qed

subsection \<open>Attaching a parameter\<close>

lemma find_node_head:
  "h a = Some n \<Longrightarrow> a \<noteq> NULL \<Longrightarrow> pr_hash n = k \<Longrightarrow> find_node h k a = Some (Inr a)"
  by (subst find_node.simps) (simp add: deref_param_def deref_def)

text \<open>The steps of a call that returned.\<close>

lemma attach_cases:
  assumes att: "rebx_add_param_nd hdr object name t ndim shape s = Some (Inr (ptr, s'))"
  obtains (exists) p0 where "rebx_get_param hdr object name s = Some (Inr p0)" and "p0 \<noteq> NULL"
      and "ptr = NULL" and "s' = reb_error (already_exists name) s"
      and "length (already_exists name) < 300" and "rebx_get_sim hdr s object = Inr ()"
  | (new) newparam sz shp s5 where "rebx_get_param hdr object name s = Some (Inr NULL)"
      and "newparam \<noteq> NULL" and "\<not> collides hdr newparam"
      and "size_loop 1 (take (nat ndim) shape) = Inr sz"
      and "kept s5 s" and "messages s5 = messages s"
      and "ptr \<noteq> NULL \<longrightarrow> blocks s5 ptr = Some \<lparr>bytes = size_t_mul (sizeof_type t) sz, cells = []\<rparr>"
      and "(case rebx_get_object_type hdr s5 object of
             Inl e \<Rightarrow> Inl e
           | Inr REBX_TYPE_EFFECT \<Rightarrow>
               (case deref_effect s5 object of
                  Inl e \<Rightarrow> Inl e
                | Inr eff \<Rightarrow>
                   (case set_effect_ap object newparam
                           (s5\<lparr>params := (params s5)(newparam \<mapsto>
                              \<lparr>pr_hash = reb_hash hdr name, pr_param_type = t, pr_ndim = ndim,
                               pr_shape = shp, pr_size = sz, pr_contents = ptr,
                               pr_next = e_ap eff\<rparr>)\<rparr>) of
                      Inl e \<Rightarrow> Inl e
                    | Inr s6 \<Rightarrow> Inr s6))
           | Inr REBX_TYPE_PARTICLE \<Rightarrow>
               (case particle_ap s5 object of
                  Inl e \<Rightarrow> Inl e
                | Inr head \<Rightarrow>
                   (case set_particle_ap object newparam
                           (s5\<lparr>params := (params s5)(newparam \<mapsto>
                              \<lparr>pr_hash = reb_hash hdr name, pr_param_type = t, pr_ndim = ndim,
                               pr_shape = shp, pr_size = sz, pr_contents = ptr,
                               pr_next = head\<rparr>)\<rparr>) of
                      Inl e \<Rightarrow> Inl e
                    | Inr s6 \<Rightarrow> Inr s6))) = Inr s'"
proof -
  from att obtain p0 where g: "rebx_get_param hdr object name s = Some (Inr p0)"
    by (auto simp: rebx_add_param_nd_def bind_run_eq_Some_Inr)
  show ?thesis
  proof (cases "p0 = NULL")
    case False
    with att g show ?thesis
      by (intro exists [of p0])
         (auto simp: rebx_add_param_nd_def lift_def sprintf_def split: sum.splits if_splits)
  next
    case True
    obtain newparam0 s1 where m: "malloc s = (newparam0, s1)" by (cases "malloc s")
    from att g True m obtain newparam s2 where v: "rebx_validate_ap_address hdr newparam0 s1 = Inr (newparam, s2)"
      by (auto simp: rebx_add_param_nd_def lift_def split: sum.splits)
    from att g True m v have w: "writable s2 newparam = Inr ()"
      by (auto simp: rebx_add_param_nd_def lift_def split: sum.splits)
    obtain shp s3 where b1: "malloc_block (size_t_mul sizeof_int ndim) s2 = (shp, s3)"
      by (cases "malloc_block (size_t_mul sizeof_int ndim) s2")
    from att g True m v w b1 obtain s4 where c: "memcpy_shape shp shape (size_t_mul sizeof_int ndim) s3 = Inr s4"
      by (auto simp: rebx_add_param_nd_def lift_def split: sum.splits)
    from att g True m v w b1 c obtain sz where sz: "size_loop 1 (take (nat ndim) shape) = Inr sz"
      by (auto simp: rebx_add_param_nd_def lift_def split: sum.splits)
    obtain contents s5 where b2: "malloc_block (size_t_mul (sizeof_type t) sz) s4 = (contents, s5)"
      by (cases "malloc_block (size_t_mul (sizeof_type t) sz) s4")
    let ?node = "\<lparr>pr_hash = reb_hash hdr name, pr_param_type = t,
      pr_ndim = ndim, pr_shape = shp, pr_size = sz, pr_contents = contents, pr_next = NULL\<rparr>"
    from att g True m v w b1 c sz b2
    have link: "(case rebx_get_object_type hdr s5 object of
             Inl e \<Rightarrow> Inl e
           | Inr REBX_TYPE_EFFECT \<Rightarrow>
               (case deref_effect s5 object of
                  Inl e \<Rightarrow> Inl e
                | Inr eff \<Rightarrow>
                   (case set_effect_ap object newparam
                           (s5\<lparr>params := (params s5)(newparam \<mapsto> ?node\<lparr>pr_next := e_ap eff\<rparr>)\<rparr>) of
                      Inl e \<Rightarrow> Inl e
                    | Inr s6 \<Rightarrow> Inr (contents, s6)))
           | Inr REBX_TYPE_PARTICLE \<Rightarrow>
               (case particle_ap s5 object of
                  Inl e \<Rightarrow> Inl e
                | Inr head \<Rightarrow>
                   (case set_particle_ap object newparam
                           (s5\<lparr>params := (params s5)(newparam \<mapsto> ?node\<lparr>pr_next := head\<rparr>)\<rparr>) of
                      Inl e \<Rightarrow> Inl e
                    | Inr s6 \<Rightarrow> Inr (contents, s6)))) = Inr (ptr, s')"
      by (simp add: rebx_add_param_nd_def lift_def Let_def)
    have pc: "ptr = contents"
      using link by (auto split: sum.splits rebx_object_type.splits)
    have np: "newparam \<noteq> NULL" using w by (auto simp: writable_def split: if_splits)
    have nc: "\<not> collides hdr newparam" using v by (rule validate_no_collision)
    have k: "kept s5 s"
      using malloc_kept [OF m] validate_kept [OF v] malloc_block_kept [OF b1]
        memcpy_shape_kept [OF c] malloc_block_kept [OF b2]
      by (blast intro: kept_trans)
    have blk: "ptr \<noteq> NULL \<longrightarrow> blocks s5 ptr = Some \<lparr>bytes = size_t_mul (sizeof_type t) sz, cells = []\<rparr>"
      using b2 pc by (auto simp: malloc_block_def split: prod.splits if_splits)
    have msg: "messages s5 = messages s" using k by (simp add: kept_def)
    from link pc have link': "(case rebx_get_object_type hdr s5 object of
             Inl e \<Rightarrow> Inl e
           | Inr REBX_TYPE_EFFECT \<Rightarrow>
               (case deref_effect s5 object of
                  Inl e \<Rightarrow> Inl e
                | Inr eff \<Rightarrow>
                   (case set_effect_ap object newparam
                           (s5\<lparr>params := (params s5)(newparam \<mapsto>
                              \<lparr>pr_hash = reb_hash hdr name, pr_param_type = t, pr_ndim = ndim,
                               pr_shape = shp, pr_size = sz, pr_contents = ptr,
                               pr_next = e_ap eff\<rparr>)\<rparr>) of
                      Inl e \<Rightarrow> Inl e
                    | Inr s6 \<Rightarrow> Inr s6))
           | Inr REBX_TYPE_PARTICLE \<Rightarrow>
               (case particle_ap s5 object of
                  Inl e \<Rightarrow> Inl e
                | Inr head \<Rightarrow>
                   (case set_particle_ap object newparam
                           (s5\<lparr>params := (params s5)(newparam \<mapsto>
                              \<lparr>pr_hash = reb_hash hdr name, pr_param_type = t, pr_ndim = ndim,
                               pr_shape = shp, pr_size = sz, pr_contents = ptr,
                               pr_next = head\<rparr>)\<rparr>) of
                      Inl e \<Rightarrow> Inl e
                    | Inr s6 \<Rightarrow> Inr s6))) = Inr s'"
      by (auto split: sum.splits rebx_object_type.splits)
    from g True np nc sz k msg blk link' show ?thesis
      by (intro new [of newparam sz s5 shp]) simp_all
  qed
qed



lemma attach_success:
  assumes att: "rebx_add_param_nd hdr object name t ndim shape s = Some (Inr (ptr, s'))"
    and ptr: "ptr \<noteq> NULL" and hdr: "EFFECT_value hdr \<le> PARTICLE_value hdr"
  shows "\<exists>newparam node. rebx_get_param_node hdr object name s' = Some (Inr newparam)
      \<and> newparam \<noteq> NULL
      \<and> params s' newparam = Some node
      \<and> pr_hash node = reb_hash hdr name \<and> pr_contents node = ptr
      \<and> pr_param_type node = t \<and> pr_ndim node = ndim
      \<and> size_loop 1 (take (nat ndim) shape) = Inr (pr_size node)
      \<and> blocks s' ptr = Some \<lparr>bytes = size_t_mul (sizeof_type t) (pr_size node), cells = []\<rparr>
      \<and> messages s' = messages s"
  using att
proof (cases rule: attach_cases)
  case (exists p0)
  with ptr show ?thesis by simp
next
  case (new newparam sz shp s5)
  from new(3) hdr have ne: "newparam \<noteq> EFFECT_value hdr" by (auto simp: collides_iff)
  from new(8) new(2,4,6,7) ne ptr show ?thesis
    by (auto simp: rebx_get_object_type_def particle_ap_def deref_def deref_effect_def deref_def set_effect_ap_def
        set_particle_ap_def deref_def rebx_get_param_node_def find_node_head
        split: sum.splits rebx_object_type.splits option.splits object.splits if_splits)
qed

subsection \<open>Kind stability\<close>

lemma reb_error_objects [simp]: "objects (reb_error m s) = objects s"
  by (simp add: reb_error_def)

text \<open>
  Were the tag stored in \<^verbatim>\<open>effect->ap\<close> itself, a lookup on an effect would start its walk
  at the tag, which is no node.
\<close>

lemma lookup_from_tag:
  assumes "objects s object = Some (Effect e)" and "object \<noteq> NULL"
    and "e_particle_ap e = EFFECT_value hdr" and "e_ap e = EFFECT_value hdr"
    and "EFFECT_value hdr \<noteq> NULL" and "params s (EFFECT_value hdr) = None"
  shows "rebx_get_param_node hdr object name s = Some (Inl (UB InvalidDeref))"
proof -
  have "find_node (params s) (reb_hash hdr name) (EFFECT_value hdr) = Some (Inl (UB InvalidDeref))"
    using assms(5,6) by (subst find_node.simps) (simp add: deref_param_def deref_def)
  with assms(1-4) show ?thesis
    by (simp add: rebx_get_param_node_def rebx_get_object_type_def particle_ap_def deref_def deref_effect_def)
qed

lemma attach_keeps_tag:
  assumes att: "rebx_add_param_nd hdr object name t ndim shape s = Some (Inr (ptr, s'))"
    and ob: "objects s object = Some (Effect e)" and tag: "e_particle_ap e = EFFECT_value hdr"
  shows "\<exists>e'. objects s' object = Some (Effect e') \<and> e_particle_ap e' = EFFECT_value hdr"
  using att
proof (cases rule: attach_cases)
  case (exists p0)
  with ob tag show ?thesis by simp
next
  case (new newparam sz shp s5)
  from kept_objects [OF new(5), of object] ob
  have "objects s5 object = Some (Effect e) \<or> objects s5 object = None" by simp
  with new(8) tag show ?thesis
    by (auto simp: rebx_get_object_type_def particle_ap_def deref_def deref_effect_def deref_def set_effect_ap_def
        split: sum.splits if_splits)
qed

lemma remove_keeps_tag:
  assumes rem: "rebx_remove_param hdr object name s = Some (Inr (r, s'))"
    and ob: "objects s object = Some (Effect e)" and tag: "e_particle_ap e = EFFECT_value hdr"
  shows "\<exists>e'. objects s' object = Some (Effect e') \<and> e_particle_ap e' = EFFECT_value hdr"
  using assms
  by (auto simp: rebx_remove_param_def rebx_get_object_type_def particle_ap_def deref_def deref_effect_def deref_def
      set_effect_ap_def scan_rest_def bind_run_eq_Some_Inr
      split: sum.splits if_splits)

lemma apply_ops_keep_tag:
  assumes "apply_ops hdr object ops s = Some (Inr s')"
    and "objects s object = Some (Effect e)" and "e_particle_ap e = EFFECT_value hdr"
  shows "\<exists>e'. objects s' object = Some (Effect e') \<and> e_particle_ap e' = EFFECT_value hdr"
  using assms
proof (induction ops arbitrary: s e)
  case Nil
  then show ?case by simp
next
  case (Cons x xs)
  from Cons.prems(1) obtain s1 where s1: "apply_op hdr object x s = Some (Inr s1)"
    "apply_ops hdr object xs s1 = Some (Inr s')"
    by (auto simp: bind_run_eq_Some_Inr)
  have "\<exists>e1. objects s1 object = Some (Effect e1) \<and> e_particle_ap e1 = EFFECT_value hdr"
  proof (cases x)
    case (Attach name t ndim shape)
    with s1(1) obtain ptr where "rebx_add_param_nd hdr object name t ndim shape s = Some (Inr (ptr, s1))"
      by (auto simp: bind_run_eq_Some_Inr)
    from attach_keeps_tag [OF this Cons.prems(2,3)] show ?thesis .
  next
    case (Remove name)
    with s1(1) obtain r where "rebx_remove_param hdr object name s = Some (Inr (r, s1))"
      by (auto simp: bind_run_eq_Some_Inr)
    from remove_keeps_tag [OF this Cons.prems(2,3)] show ?thesis .
  qed
  then obtain e1 where "objects s1 object = Some (Effect e1)" "e_particle_ap e1 = EFFECT_value hdr"
    by blast
  from Cons.IH [OF s1(2) this] show ?case .
qed

lemma register_tagged:
  assumes "register hdr rebx r s0 = Inr (effect, s)"
  shows "effect \<noteq> NULL
     \<and> (\<exists>e. objects s effect = Some (Effect e) \<and> e_particle_ap e = EFFECT_value hdr)"
  using assms
  by (cases r)
     (auto simp: rebx_add_def rebx_add_custom_force_def rebx_add_custom_post_timestep_modification_def
        rebx_add_effect_def set_force_def set_ptm_def Let_def writable_def
        split: sum.splits prod.splits if_splits)


text \<open>
  C2. An effect made by the registry (by any of the three registration functions) is
  classified as an effect by \<^verbatim>\<open>rebx_get_object_type\<close> right after its construction and
  after any sequence of attachments to and removals from its own store that ran to its end.
  The tag lives in the word that the particle view calls \<^verbatim>\<open>ap\<close>; attachments and
  removals on an effect go through \<^verbatim>\<open>effect->ap\<close> and never write that word.
\<close>

theorem effect_kind_stable:
  assumes "register hdr rebx r s0 = Inr (effect, s)"
    and "apply_ops hdr effect ops s = Some (Inr s')"
  shows "rebx_get_object_type hdr s effect = Inr REBX_TYPE_EFFECT
     \<and> rebx_get_object_type hdr s' effect = Inr REBX_TYPE_EFFECT"
proof -
  from register_tagged [OF assms(1)] obtain e where
    e: "objects s effect = Some (Effect e)" "e_particle_ap e = EFFECT_value hdr"
    and nn: "effect \<noteq> NULL" by blast
  from apply_ops_keep_tag [OF assms(2) e] e nn show ?thesis
    by (auto simp: rebx_get_object_type_def particle_ap_def deref_def)
qed

lemmas eval_defs = rebx_add_param_def rebx_add_param_nd_def rebx_get_param_def rebx_get_param_node_def
     rebx_get_object_type_def particle_ap_def deref_def deref_effect_def deref_def deref_param_def deref_def find_node.simps
     lift_def malloc_def rebx_validate_ap_address_def collides_def writable_def malloc_block_def
     size_t_mul_def sizeof_int_def sizeof_double_def sizeof_type_def memcpy_shape_def INT_MAX_def INT_MIN_def
     set_particle_ap_def deref_def set_effect_ap_def Let_def sprintf_def already_exists_def rebx_get_sim_def

theorem effect_kind_stable_witness:
  "\<exists>s'. apply_ops hdr0 4160
         [Attach ''c'' REBX_TYPE_DOUBLE 1 [1], Attach ''c'' REBX_TYPE_DOUBLE 1 [1], Remove ''c'']
         with_effect = Some (Inr s')
     \<and> rebx_get_object_type hdr0 with_effect 4160 = Inr REBX_TYPE_EFFECT
     \<and> rebx_get_object_type hdr0 s' 4160 = Inr REBX_TYPE_EFFECT"
proof -
  have reg: "register hdr0 4096 (Add ''gr'') ready = Inr (4160, with_effect)"
    by (simp add: rebx_add_def rebx_add_effect_def malloc_def writable_def deref_extras_def deref_def
        ready_def boot_def hdr0_def with_effect_def)
  have "\<exists>s'. apply_ops hdr0 4160
         [Attach ''c'' REBX_TYPE_DOUBLE 1 [1], Attach ''c'' REBX_TYPE_DOUBLE 1 [1], Remove ''c'']
         with_effect = Some (Inr s')"
    by (simp add: eval_defs rebx_remove_param_def deref_extras_def deref_def reb_error_def
        with_effect_def ready_def boot_def hdr0_def)
  then obtain s' where run: "apply_ops hdr0 4160
         [Attach ''c'' REBX_TYPE_DOUBLE 1 [1], Attach ''c'' REBX_TYPE_DOUBLE 1 [1], Remove ''c'']
         with_effect = Some (Inr s')" ..
  from effect_kind_stable [OF reg run] run show ?thesis by blast
qed



subsection \<open>Removing a parameter\<close>

lemma unlink_loop_total:
  "nodes h a (a # as) \<Longrightarrow>
   \<exists>r h'. unlink_loop k a h = Some (Inr (r, h')) \<and> (r = 0 \<and> h' = h \<or> r = 1)"
proof (induction as arbitrary: a)
  case Nil
  then show ?case
    by (subst unlink_loop.simps) (auto simp: deref_param_def deref_def split: option.splits)
next
  case (Cons b bs)
  from Cons.prems obtain n where n: "h a = Some n" "a \<noteq> NULL" "pr_next n = b" "nodes h b (b # bs)"
    by (auto split: option.splits)
  from n(4) obtain n1 where n1: "h b = Some n1" "b \<noteq> NULL" by (auto split: option.splits)
  show ?case
  proof (cases "pr_hash n1 = k")
    case True
    with n n1 show ?thesis
      by (subst unlink_loop.simps) (simp add: deref_param_def deref_def)
  next
    case False
    from Cons.IH [OF n(4)] obtain r h' where
      "unlink_loop k b h = Some (Inr (r, h'))" "r = 0 \<and> h' = h \<or> r = 1" by blast
    with n n1 False show ?thesis
      by (subst unlink_loop.simps) (simp add: deref_param_def deref_def)
  qed
qed

lemma remove_on_nodes:
  assumes ob: "objects s object = Some ob" and nn: "object \<noteq> NULL"
    and kind: "(case ob of Particle p \<Rightarrow> p_ap p \<noteq> EFFECT_value hdr \<and> head = p_ap p
                | Effect e \<Rightarrow> e_particle_ap e = EFFECT_value hdr \<and> head = e_ap e)"
    and nd: "nodes (params s) head as"
  shows "(as = [] \<longrightarrow> rebx_remove_param hdr object name s = Some (Inl (UB NullDeref)))
     \<and> (as \<noteq> [] \<longrightarrow> (\<exists>r s'. rebx_remove_param hdr object name s = Some (Inr (r, s'))
            \<and> (r = 0 \<and> s' = s \<or> r = 1)))"
proof -
  have start: "rebx_remove_param hdr object name s =
      (case deref_param (params s) head of
         Inl e \<Rightarrow> Some (Inl e)
       | Inr n \<Rightarrow>
          if pr_hash n = reb_hash hdr name
          then (case ob of
                  Particle p \<Rightarrow> Some (Inr (1, s\<lparr>objects := (objects s)(object \<mapsto> Particle (p\<lparr>p_ap := pr_next n\<rparr>))\<rparr>))
                | Effect e \<Rightarrow> Some (Inr (1, s\<lparr>objects := (objects s)(object \<mapsto> Effect (e\<lparr>e_ap := pr_next n\<rparr>))\<rparr>)))
          else scan_rest (reb_hash hdr name) head s)"
    using ob kind nn
    by (cases ob)
       (simp_all add: rebx_remove_param_def rebx_get_object_type_def particle_ap_def deref_def
          deref_effect_def deref_def set_effect_ap_def set_particle_ap_def deref_def split: sum.splits)
  show ?thesis
  proof (cases as)
    case Nil
    with nd show ?thesis by (simp add: start deref_param_def deref_def)
  next
    case (Cons a bs)
    with nd have nd': "nodes (params s) a (a # bs)" and hd: "head = a" by simp_all
    then obtain n where n: "params s a = Some n" "a \<noteq> NULL" by (auto split: option.splits)
    from unlink_loop_total [OF nd', of "reb_hash hdr name"] obtain r h' where
      u: "unlink_loop (reb_hash hdr name) a (params s) = Some (Inr (r, h'))"
         "r = 0 \<and> h' = params s \<or> r = 1" by blast
    show ?thesis
    proof (cases "pr_hash n = reb_hash hdr name")
      case True
      with n hd Cons show ?thesis by (cases ob) (simp_all add: start deref_param_def deref_def)
    next
      case False
      with n hd Cons u show ?thesis by (auto simp: start deref_param_def deref_def scan_rest_def)
    qed
  qed
qed


text \<open>
  C10. \<^verbatim>\<open>rebx_remove_param\<close> reads \<^verbatim>\<open>current->hash\<close> of the list head without testing the
  head. For an object with a well-formed store this is the only precondition: on an empty
  store the call dereferences \<^verbatim>\<open>NULL\<close>, and on a store with at least one node the head
  dereference and the scan of \<^verbatim>\<open>current->next\<close> meet allocated nodes of that store only,
  so the call returns, with 0 and the state unchanged or with 1.
\<close>

theorem remove_needs_a_node:
  assumes "store hdr s object as"
  shows "(as = [] \<longrightarrow> rebx_remove_param hdr object name s = Some (Inl (UB NullDeref)))
     \<and> (as \<noteq> [] \<longrightarrow> (\<exists>r s'. rebx_remove_param hdr object name s = Some (Inr (r, s'))
            \<and> (r = 0 \<and> s' = s \<or> r = 1)))"
proof -
  from assms obtain ob where ob: "objects s object = Some ob" and nn: "object \<noteq> NULL"
    by (auto simp: store_def split: option.splits)
  show ?thesis
  proof (cases ob)
    case (Particle p)
    with assms ob show ?thesis
      by (intro remove_on_nodes [OF ob nn, where head = "p_ap p"]) (simp_all add: store_def)
  next
    case (Effect e)
    with assms ob show ?thesis
      by (intro remove_on_nodes [OF ob nn, where head = "e_ap e"]) (simp_all add: store_def)
  qed
qed



theorem remove_needs_a_node_witness:
  "store hdr0 ready 512 []
   \<and> rebx_remove_param hdr0 512 ''td_EB0'' ready = Some (Inl (UB NullDeref))
   \<and> store hdr0 attached 512 [4160]
   \<and> (\<exists>r s'. rebx_remove_param hdr0 512 ''td_EB0'' attached = Some (Inr (r, s'))
          \<and> (r = 0 \<and> s' = attached \<or> r = 1))"
proof -
  have e: "store hdr0 ready 512 []"
    by (simp add: store_def ready_def boot_def hdr0_def)
  have n: "store hdr0 attached 512 [4160]"
    by (simp add: store_def attached_def ready_def boot_def hdr0_def)
  from remove_needs_a_node [OF e, of "''td_EB0''"] remove_needs_a_node [OF n, of "''td_EB0''"] e n
  show ?thesis by simp
qed

text \<open>
  C5 fails on the empty store, which the claim names. For the particle of \<open>ready\<close> and for
  the effect of \<open>with_effect\<close>, neither with a parameter, \<^verbatim>\<open>rebx_remove_param\<close> does not
  return false: it reads \<^verbatim>\<open>current->hash\<close> through the \<^verbatim>\<open>NULL\<close> head.
  (\<^verbatim>\<open>rebx_get_param_node\<close> tests \<^verbatim>\<open>current != NULL\<close> before it reads.)
\<close>

theorem remove_from_empty_store:
  "rebx_remove_param hdr0 512 ''td_EB0'' ready = Some (Inl (UB NullDeref))
   \<and> rebx_remove_param hdr0 4160 ''c'' with_effect = Some (Inl (UB NullDeref))"
  by (simp add: rebx_remove_param_def eval_defs with_effect_def ready_def boot_def hdr0_def)

subsection \<open>Removal on a non-empty store\<close>

text \<open>
  On a store with at least one node, no node at the address of the effect tag, and no hash
  twice (\<^verbatim>\<open>rebx_add_param_\<close> refuses a name whose hash is present), removal behaves as
  described: a name that is absent gives 0 and the same state (\<open>remove_miss\<close>); a name that
  is present, at the head (\<open>remove_head\<close>) or further on (\<open>remove_interior\<close>), gives 1 and
  a state in which the object still has a well-formed store and \<^verbatim>\<open>rebx_get_param_node\<close>
  and \<^verbatim>\<open>rebx_get_param\<close> return \<^verbatim>\<open>NULL\<close> for that name (\<open>remove_on_store\<close>).
\<close>

lemma nodes_upd: "a \<notin> set as \<Longrightarrow> nodes (h(a \<mapsto> v)) p as = nodes h p as"
  by (induction as arbitrary: p) (auto split: option.splits)

lemma hashes_upd: "a \<notin> set as \<Longrightarrow> hashes (h(a \<mapsto> v)) as = hashes h as"
  by (simp add: hashes_def)

lemma find_absent:
  "nodes h p as \<Longrightarrow> Some k \<notin> set (hashes h as) \<Longrightarrow> find_node h k p = Some (Inr NULL)"
proof (induction as arbitrary: p)
  case Nil
  then show ?case by (subst find_node.simps) simp
next
  case (Cons a as)
  from Cons.prems obtain n where n: "p = a" "a \<noteq> NULL" "h a = Some n" "nodes h (pr_next n) as"
    "pr_hash n \<noteq> k" "Some k \<notin> set (hashes h as)"
    by (auto simp: hashes_def split: option.splits)
  from Cons.IH [OF n(4,6)] n show ?case
    by (subst find_node.simps) (simp add: deref_param_def deref_def)
qed

lemma unlink_absent:
  "nodes h a (a # as) \<Longrightarrow> Some k \<notin> set (hashes h as) \<Longrightarrow> unlink_loop k a h = Some (Inr (0, h))"
proof (induction as arbitrary: a)
  case Nil
  then show ?case
    by (subst unlink_loop.simps) (auto simp: deref_param_def deref_def split: option.splits)
next
  case (Cons b bs)
  from Cons.prems obtain n n1 where n: "a \<noteq> NULL" "h a = Some n" "pr_next n = b" "nodes h b (b # bs)"
    "b \<noteq> NULL" "h b = Some n1" "pr_hash n1 \<noteq> k" "Some k \<notin> set (hashes h bs)"
    by (auto simp: hashes_def split: option.splits)
  from Cons.IH [OF n(4,8)] n show ?case
    by (subst unlink_loop.simps) (simp add: deref_param_def deref_def)
qed

lemma unlink_present:
  "nodes h a (a # as) \<Longrightarrow> distinct (a # as) \<Longrightarrow> Some k \<in> set (hashes h as) \<Longrightarrow>
   \<exists>h' as'. unlink_loop k a h = Some (Inr (1, h')) \<and> nodes h' a (a # as')
     \<and> hashes h' as' = remove1 (Some k) (hashes h as)
     \<and> map_option pr_hash (h' a) = map_option pr_hash (h a)
     \<and> (\<forall>y. y \<notin> set (a # as) \<longrightarrow> h' y = h y)"
proof (induction as arbitrary: a)
  case Nil
  then show ?case by (simp add: hashes_def)
next
  case (Cons b bs)
  from Cons.prems(1) obtain n n1 where n: "a \<noteq> NULL" "h a = Some n" "pr_next n = b"
    "nodes h b (b # bs)" "b \<noteq> NULL" "h b = Some n1" "nodes h (pr_next n1) bs"
    by (auto split: option.splits)
  from Cons.prems(2) have d: "a \<noteq> b" "a \<notin> set bs" "b \<notin> set bs" "distinct (b # bs)" by auto
  show ?case
  proof (cases "pr_hash n1 = k")
    case True
    let ?h = "h(a \<mapsto> n\<lparr>pr_next := pr_next n1\<rparr>)"
    have u: "unlink_loop k a h = Some (Inr (1, ?h))"
      using n True by (subst unlink_loop.simps) (simp add: deref_param_def deref_def)
    have "nodes ?h a (a # bs)" using n d by (simp add: nodes_upd)
    moreover have "hashes ?h bs = remove1 (Some k) (hashes h (b # bs))"
      using n True d by (simp add: hashes_upd) (simp add: hashes_def)
    moreover have "map_option pr_hash (?h a) = map_option pr_hash (h a)" using n by simp
    moreover have "\<forall>y. y \<notin> set (a # b # bs) \<longrightarrow> ?h y = h y" by simp
    ultimately show ?thesis using u by blast
  next
    case False
    with Cons.prems(3) n have k: "Some k \<in> set (hashes h bs)" by (simp add: hashes_def)
    from Cons.IH [OF n(4) d(4) k] obtain h' bs' where
      i: "unlink_loop k b h = Some (Inr (1, h'))" "nodes h' b (b # bs')"
         "hashes h' bs' = remove1 (Some k) (hashes h bs)"
         "map_option pr_hash (h' b) = map_option pr_hash (h b)"
         "\<forall>y. y \<notin> set (b # bs) \<longrightarrow> h' y = h y"
      by blast
    have u: "unlink_loop k a h = Some (Inr (1, h'))"
      using n False i(1) by (subst unlink_loop.simps) (simp add: deref_param_def deref_def)
    have ha: "h' a = h a" using i(5) d by simp
    have "nodes h' a (a # b # bs')" using ha n i(2) by simp
    moreover have "hashes h' (b # bs') = remove1 (Some k) (hashes h (b # bs))"
      using i(3,4) n False by (simp add: hashes_def)
    moreover have "map_option pr_hash (h' a) = map_option pr_hash (h a)" using ha by simp
    moreover have "\<forall>y. y \<notin> set (a # b # bs) \<longrightarrow> h' y = h y" using i(5) by simp
    ultimately show ?thesis using u by blast
  qed
qed

lemma remove_start:
  assumes ob: "objects s object = Some ob" and nn: "object \<noteq> NULL"
    and kind: "(case ob of Particle p \<Rightarrow> p_ap p \<noteq> EFFECT_value hdr \<and> head = p_ap p
                | Effect e \<Rightarrow> e_particle_ap e = EFFECT_value hdr \<and> head = e_ap e)"
  shows "rebx_remove_param hdr object name s =
      (case deref_param (params s) head of
         Inl e \<Rightarrow> Some (Inl e)
       | Inr n \<Rightarrow>
          if pr_hash n = reb_hash hdr name
          then (case ob of
                  Particle p \<Rightarrow> Some (Inr (1, s\<lparr>objects := (objects s)(object \<mapsto> Particle (p\<lparr>p_ap := pr_next n\<rparr>))\<rparr>))
                | Effect e \<Rightarrow> Some (Inr (1, s\<lparr>objects := (objects s)(object \<mapsto> Effect (e\<lparr>e_ap := pr_next n\<rparr>))\<rparr>)))
          else scan_rest (reb_hash hdr name) head s)"
  using ob kind nn
  by (cases ob)
     (simp_all add: rebx_remove_param_def rebx_get_object_type_def particle_ap_def deref_def
        deref_effect_def set_effect_ap_def set_particle_ap_def split: sum.splits)

lemma lookup_start:
  assumes ob: "objects s object = Some ob" and nn: "object \<noteq> NULL"
    and kind: "(case ob of Particle p \<Rightarrow> p_ap p \<noteq> EFFECT_value hdr \<and> head = p_ap p
                | Effect e \<Rightarrow> e_particle_ap e = EFFECT_value hdr \<and> head = e_ap e)"
  shows "rebx_get_param_node hdr object name s = find_node (params s) (reb_hash hdr name) head"
  using ob kind nn
  by (cases ob)
     (simp_all add: rebx_get_param_node_def rebx_get_object_type_def particle_ap_def deref_def
        deref_effect_def)

lemma store_head:
  assumes "store hdr s object as"
  obtains ob head where "objects s object = Some ob" and "object \<noteq> NULL"
    and "(case ob of Particle p \<Rightarrow> p_ap p \<noteq> EFFECT_value hdr \<and> head = p_ap p
                | Effect e \<Rightarrow> e_particle_ap e = EFFECT_value hdr \<and> head = e_ap e)"
    and "nodes (params s) head as"
  using assms
  by (auto simp: store_def split: option.splits object.splits)

lemma nodes_next_not_tag:
  assumes "nodes h p as" and "t \<notin> set as" and "t \<noteq> NULL"
  shows "p \<noteq> t"
  using assms by (cases as) auto

lemma remove_head:
  assumes ob: "objects s object = Some ob" and nn: "object \<noteq> NULL"
    and kind: "(case ob of Particle p \<Rightarrow> p_ap p \<noteq> EFFECT_value hdr \<and> a = p_ap p
                | Effect e \<Rightarrow> e_particle_ap e = EFFECT_value hdr \<and> a = e_ap e)"
    and n: "a \<noteq> NULL" "params s a = Some n" "nodes (params s) (pr_next n) bs"
    and hit: "pr_hash n = reb_hash hdr name"
    and nt: "pr_next n \<noteq> EFFECT_value hdr"
    and nk: "Some (reb_hash hdr name) \<notin> set (hashes (params s) bs)"
  shows "\<exists>s'. rebx_remove_param hdr object name s = Some (Inr (1, s'))
               \<and> store hdr s' object bs
               \<and> rebx_get_param_node hdr object name s' = Some (Inr NULL)"
proof (cases ob)
  case (Particle p)
  let ?s' = "s\<lparr>objects := (objects s)(object \<mapsto> Particle (p\<lparr>p_ap := pr_next n\<rparr>))\<rparr>"
  have r: "rebx_remove_param hdr object name s = Some (Inr (1, ?s'))"
    using remove_start [OF ob nn kind, of name] n(1,2) hit Particle
    by (simp add: deref_param_def deref_def)
  have st: "store hdr ?s' object bs" using nn n(3) nt by (simp add: store_def)
  have "rebx_get_param_node hdr object name ?s' = find_node (params ?s') (reb_hash hdr name) (pr_next n)"
    using nn nt by (intro lookup_start [where ob = "Particle (p\<lparr>p_ap := pr_next n\<rparr>)"]) simp_all
  with find_absent [OF n(3) nk] have "rebx_get_param_node hdr object name ?s' = Some (Inr NULL)"
    by simp
  with r st show ?thesis by blast
next
  case (Effect e)
  let ?s' = "s\<lparr>objects := (objects s)(object \<mapsto> Effect (e\<lparr>e_ap := pr_next n\<rparr>))\<rparr>"
  have r: "rebx_remove_param hdr object name s = Some (Inr (1, ?s'))"
    using remove_start [OF ob nn kind, of name] n(1,2) hit Effect
    by (simp add: deref_param_def deref_def)
  have tg: "e_particle_ap e = EFFECT_value hdr" using kind Effect by simp
  have st: "store hdr ?s' object bs" using nn n(3) tg by (simp add: store_def)
  have "rebx_get_param_node hdr object name ?s' = find_node (params ?s') (reb_hash hdr name) (pr_next n)"
    using nn tg by (intro lookup_start [where ob = "Effect (e\<lparr>e_ap := pr_next n\<rparr>)"]) simp_all
  with find_absent [OF n(3) nk] have "rebx_get_param_node hdr object name ?s' = Some (Inr NULL)"
    by simp
  with r st show ?thesis by blast
qed

lemma remove_miss:
  assumes ob: "objects s object = Some ob" and nn: "object \<noteq> NULL"
    and kind: "(case ob of Particle p \<Rightarrow> p_ap p \<noteq> EFFECT_value hdr \<and> a = p_ap p
                | Effect e \<Rightarrow> e_particle_ap e = EFFECT_value hdr \<and> a = e_ap e)"
    and n: "a \<noteq> NULL" "params s a = Some n" "nodes (params s) (pr_next n) bs"
    and miss: "pr_hash n \<noteq> reb_hash hdr name"
    and nk: "Some (reb_hash hdr name) \<notin> set (hashes (params s) bs)"
  shows "rebx_remove_param hdr object name s = Some (Inr (0, s))"
proof -
  have sc: "rebx_remove_param hdr object name s = scan_rest (reb_hash hdr name) a s"
    using remove_start [OF ob nn kind, of name] n(1,2) miss
    by (simp add: deref_param_def deref_def)
  have "nodes (params s) a (a # bs)" using n by simp
  from unlink_absent [OF this nk] sc show ?thesis
    by (simp add: scan_rest_def)
qed

lemma remove_interior:
  assumes ob: "objects s object = Some ob" and nn: "object \<noteq> NULL"
    and kind: "(case ob of Particle p \<Rightarrow> p_ap p \<noteq> EFFECT_value hdr \<and> a = p_ap p
                | Effect e \<Rightarrow> e_particle_ap e = EFFECT_value hdr \<and> a = e_ap e)"
    and n: "a \<noteq> NULL" "params s a = Some n" "nodes (params s) (pr_next n) bs"
    and miss: "pr_hash n \<noteq> reb_hash hdr name"
    and dist: "distinct (a # bs)" and uniq: "distinct (hashes (params s) bs)"
    and hit: "Some (reb_hash hdr name) \<in> set (hashes (params s) bs)"
  shows "\<exists>s' bs'. rebx_remove_param hdr object name s = Some (Inr (1, s'))
               \<and> store hdr s' object (a # bs')
               \<and> rebx_get_param_node hdr object name s' = Some (Inr NULL)"
proof -
  let ?k = "reb_hash hdr name"
  have sc: "rebx_remove_param hdr object name s = scan_rest ?k a s"
    using remove_start [OF ob nn kind, of name] n(1,2) miss
    by (simp add: deref_param_def deref_def)
  have nda: "nodes (params s) a (a # bs)" using n by simp
  from unlink_present [OF nda dist hit] obtain h' bs' where
    u: "unlink_loop ?k a (params s) = Some (Inr (1, h'))" "nodes h' a (a # bs')"
       "hashes h' bs' = remove1 (Some ?k) (hashes (params s) bs)"
       "map_option pr_hash (h' a) = map_option pr_hash (params s a)"
    by blast
  let ?s' = "s\<lparr>params := h'\<rparr>"
  have r: "rebx_remove_param hdr object name s = Some (Inr (1, ?s'))"
    using sc u(1) by (simp add: scan_rest_def)
  have pa: "nodes (params ?s') a (a # bs')" using u(2) by simp
  have st: "store hdr ?s' object (a # bs')"
  proof (cases ob)
    case (Particle p)
    with ob kind nn pa show ?thesis by (simp add: store_def)
  next
    case (Effect e)
    with ob kind nn pa show ?thesis by (simp add: store_def)
  qed
  from uniq have "Some ?k \<notin> set (remove1 (Some ?k) (hashes (params s) bs))" by simp
  moreover have "Some ?k \<noteq> map_option pr_hash (h' a)" using u(4) n(2) miss by auto
  ultimately have nk: "Some ?k \<notin> set (hashes h' (a # bs'))"
    using u(3) by (simp add: hashes_def)
  have ob': "objects ?s' object = Some ob" using ob by simp
  have "rebx_get_param_node hdr object name ?s' = find_node (params ?s') ?k a"
    by (rule lookup_start [OF ob' nn kind])
  with find_absent [OF u(2) nk] have "rebx_get_param_node hdr object name ?s' = Some (Inr NULL)"
    by simp
  with r st show ?thesis by blast
qed

lemma remove_on_store:
  assumes st: "store hdr s object as" and ne: "as \<noteq> []"
    and tags: "EFFECT_value hdr \<notin> set as" "EFFECT_value hdr \<noteq> NULL"
    and uniq: "distinct (hashes (params s) as)"
  shows "(Some (reb_hash hdr name) \<notin> set (hashes (params s) as) \<longrightarrow>
            rebx_remove_param hdr object name s = Some (Inr (0, s)))
       \<and> (Some (reb_hash hdr name) \<in> set (hashes (params s) as) \<longrightarrow>
            (\<exists>s' as'. rebx_remove_param hdr object name s = Some (Inr (1, s'))
               \<and> store hdr s' object as'
               \<and> rebx_get_param_node hdr object name s' = Some (Inr NULL)
               \<and> rebx_get_param hdr object name s' = Some (Inr NULL)))"
proof -
  let ?k = "reb_hash hdr name"
  from st obtain ob head where ob: "objects s object = Some ob" and nn: "object \<noteq> NULL"
    and kind: "(case ob of Particle p \<Rightarrow> p_ap p \<noteq> EFFECT_value hdr \<and> head = p_ap p
                | Effect e \<Rightarrow> e_particle_ap e = EFFECT_value hdr \<and> head = e_ap e)"
    and nd: "nodes (params s) head as"
    by (rule store_head)
  from ne obtain a bs where as: "as = a # bs" by (cases as) auto
  from nd [unfolded as] obtain n where hd: "head = a" and n: "a \<noteq> NULL" "params s a = Some n"
    "nodes (params s) (pr_next n) bs"
    by (auto split: option.splits)
  note kind' = kind [unfolded hd]
  have hs: "hashes (params s) as = Some (pr_hash n) # hashes (params s) bs"
    unfolding as using n(2) by (simp add: hashes_def)
  from uniq [unfolded hs] have ub: "distinct (hashes (params s) bs)"
    and nh: "Some (pr_hash n) \<notin> set (hashes (params s) bs)" by simp_all
  from uniq have "distinct as" by (simp add: hashes_def distinct_map)
  then have dist: "distinct (a # bs)" unfolding as .
  have null: "rebx_get_param hdr object name s' = Some (Inr NULL)"
    if "rebx_get_param_node hdr object name s' = Some (Inr NULL)" for s'
    using that by (simp add: rebx_get_param_def)
  show ?thesis
  proof (cases "pr_hash n = ?k")
    case True
    from tags(1) have "EFFECT_value hdr \<notin> set bs" unfolding as by simp
    from nodes_next_not_tag [OF n(3) this tags(2)] have nt: "pr_next n \<noteq> EFFECT_value hdr" .
    from nh True have nk: "Some ?k \<notin> set (hashes (params s) bs)" by simp
    from remove_head [OF ob nn kind' n True nt nk] obtain s' where
      "rebx_remove_param hdr object name s = Some (Inr (1, s'))" "store hdr s' object bs"
      "rebx_get_param_node hdr object name s' = Some (Inr NULL)" by blast
    with null have "\<exists>s' as'. rebx_remove_param hdr object name s = Some (Inr (1, s'))
               \<and> store hdr s' object as'
               \<and> rebx_get_param_node hdr object name s' = Some (Inr NULL)
               \<and> rebx_get_param hdr object name s' = Some (Inr NULL)" by blast
    moreover have "Some ?k \<in> set (hashes (params s) as)" unfolding hs using True by simp
    ultimately show ?thesis by blast
  next
    case False
    show ?thesis
    proof (cases "Some ?k \<in> set (hashes (params s) bs)")
      case absent: False
      then have "Some ?k \<notin> set (hashes (params s) as)" unfolding hs using False by simp
      with remove_miss [OF ob nn kind' n False absent] show ?thesis by blast
    next
      case present: True
      from remove_interior [OF ob nn kind' n False dist ub present] obtain s' bs' where
        "rebx_remove_param hdr object name s = Some (Inr (1, s'))" "store hdr s' object (a # bs')"
        "rebx_get_param_node hdr object name s' = Some (Inr NULL)" by blast
      with null have "\<exists>s' as'. rebx_remove_param hdr object name s = Some (Inr (1, s'))
               \<and> store hdr s' object as'
               \<and> rebx_get_param_node hdr object name s' = Some (Inr NULL)
               \<and> rebx_get_param hdr object name s' = Some (Inr NULL)" by blast
      moreover have "Some ?k \<in> set (hashes (params s) as)" unfolding hs using present by simp
      ultimately show ?thesis by blast
    qed
  qed
qed

subsection \<open>The ledger\<close>

lemma attach_leaves_ledger:
  assumes "rebx_add_param_nd hdr object name t ndim shape s = Some (Inr (ptr, s'))"
  shows "to_be_freed s' \<subseteq>\<^sub>m to_be_freed s \<and> extras s' \<subseteq>\<^sub>m extras s"
  using assms
proof (cases rule: attach_cases)
  case (exists p0)
  then show ?thesis by (simp add: reb_error_def)
next
  case (new newparam sz shp s5)
  from new(8) have "to_be_freed s' = to_be_freed s5 \<and> extras s' = extras s5"
    by (auto simp: set_effect_ap_def set_particle_ap_def
        split: sum.splits rebx_object_type.splits object.splits)
  with new(5) show ?thesis by (simp add: kept_def)
qed

text \<open>
  C3 fails at its first step. \<^verbatim>\<open>rebx_add_param_\<close> never calls
  \<^verbatim>\<open>rebx_add_param_to_be_freed\<close> (no function of the file does): an attachment adds no
  entry to the ledger and does not touch \<^verbatim>\<open>rebx->params_to_be_freed\<close>
  (\<open>attach_leaves_ledger\<close>). So \<^verbatim>\<open>rebx_free\<close> walks an empty ledger. After one attachment
  of a scalar to the particle of \<open>ready\<close> and the teardown, the node (4160), the copy of its
  shape (4224) and its storage (4288) are still allocated, and the node is still in the heap.
\<close>

theorem attach_never_recorded:
  "rebx_add_param hdr0 512 ''td_EB0'' REBX_TYPE_DOUBLE ready = Some (Inr (4288, attached))
   \<and> map_option x_params_to_be_freed (extras attached 4096) = Some NULL
   \<and> to_be_freed attached = Map.empty
   \<and> map_option (map_sum id live) (rebx_free 4096 attached) = Some (Inr [4288, 4224, 4160])
   \<and> map_option (map_sum id params) (rebx_free 4096 attached) = Some (Inr (params attached))"
proof -
  have "rebx_add_param hdr0 512 ''td_EB0'' REBX_TYPE_DOUBLE ready = Some (Inr (4288, attached))"
    by (simp add: eval_defs ready_def boot_def hdr0_def attached_def)
  moreover have "map_option x_params_to_be_freed (extras attached 4096) = Some NULL"
    "to_be_freed attached = Map.empty"
    by (simp_all add: attached_def ready_def boot_def)
  moreover have "map_option (map_sum id live) (rebx_free 4096 attached) = Some (Inr [4288, 4224, 4160])"
    "map_option (map_sum id params) (rebx_free 4096 attached) = Some (Inr (params attached))"
    by (simp_all add: rebx_free_def rebx_free_params_def rebx_free_effects_def deref_extras_def deref_def
      free_params_loop.simps free_effects_loop.simps free_def lift_def attached_def ready_def boot_def)
  ultimately show ?thesis by simp
qed

subsection \<open>Attaching a name twice\<close>

lemma length_already_exists: "length (already_exists name) = 70 + length name"
  by (simp add: already_exists_def)

lemma get_param_node_cong:
  assumes "objects s' = objects s" and "params s' = params s"
  shows "rebx_get_param_node hdr object name s' = rebx_get_param_node hdr object name s"
proof -
  have eqs: "rebx_get_object_type hdr s' object = rebx_get_object_type hdr s object"
    "deref_effect s' object = deref_effect s object"
    "particle_ap s' object = particle_ap s object"
    using assms by (simp_all add: rebx_get_object_type_def particle_ap_def deref_effect_def)
  show ?thesis
    unfolding rebx_get_param_node_def eqs assms(2) ..
qed

lemma get_param_cong:
  assumes "objects s' = objects s" and "params s' = params s"
  shows "rebx_get_param hdr object name s' = rebx_get_param hdr object name s"
  unfolding rebx_get_param_def get_param_node_cong [OF assms] assms(2) ..

lemma lookup_after_report:
  "rebx_get_param hdr object name (reb_error m s) = rebx_get_param hdr object name s"
  by (rule get_param_cong) (simp_all add: reb_error_def)

lemma duplicate_attach_rejected:
  assumes hdr: "EFFECT_value hdr \<le> PARTICLE_value hdr"
    and first: "rebx_add_param_nd hdr object name t ndim shape s = Some (Inr (ptr, s1))"
    and ptr: "ptr \<noteq> NULL"
    and fits: "length name \<le> 229"
    and sim: "rebx_get_sim hdr s1 object = Inr ()"
  shows "rebx_add_param_nd hdr object name t' ndim' shape' s1
           = Some (Inr (NULL, reb_error (already_exists name) s1))"
    and "rebx_get_param hdr object name (reb_error (already_exists name) s1) = Some (Inr ptr)"
    and "objects (reb_error (already_exists name) s1) = objects s1"
    and "params (reb_error (already_exists name) s1) = params s1"
proof -
  from attach_success [OF first ptr hdr] obtain newparam node where
    n: "rebx_get_param_node hdr object name s1 = Some (Inr newparam)" "newparam \<noteq> NULL"
       "params s1 newparam = Some node" "pr_contents node = ptr"
    by blast
  then have g: "rebx_get_param hdr object name s1 = Some (Inr ptr)"
    by (simp add: rebx_get_param_def deref_param_def deref_def)
  from g ptr fits sim
  show "rebx_add_param_nd hdr object name t' ndim' shape' s1
           = Some (Inr (NULL, reb_error (already_exists name) s1))"
    by (simp add: rebx_add_param_nd_def lift_def sprintf_def length_already_exists)
  from g show "rebx_get_param hdr object name (reb_error (already_exists name) s1) = Some (Inr ptr)"
    by (simp add: lookup_after_report)
  show "objects (reb_error (already_exists name) s1) = objects s1"
    "params (reb_error (already_exists name) s1) = params s1"
    by (simp_all add: reb_error_def)
qed

lemma duplicate_attach_overflow:
  assumes hdr: "EFFECT_value hdr \<le> PARTICLE_value hdr"
    and first: "rebx_add_param_nd hdr object name t ndim shape s = Some (Inr (ptr, s1))"
    and ptr: "ptr \<noteq> NULL"
    and long: "230 \<le> length name"
  shows "rebx_add_param_nd hdr object name t' ndim' shape' s1 = Some (Inl (UB BufferOverflow))"
proof -
  from attach_success [OF first ptr hdr] obtain newparam node where
    n: "rebx_get_param_node hdr object name s1 = Some (Inr newparam)" "newparam \<noteq> NULL"
       "params s1 newparam = Some node" "pr_contents node = ptr"
    by blast
  then have g: "rebx_get_param hdr object name s1 = Some (Inr ptr)"
    by (simp add: rebx_get_param_def deref_param_def deref_def)
  from g ptr long show ?thesis
    by (simp add: rebx_add_param_nd_def lift_def sprintf_def length_already_exists)
qed

text \<open>
  C4 holds for names of at most 229 characters (\<open>duplicate_attach_rejected\<close>: the second
  attachment reports the error, returns \<^verbatim>\<open>NULL\<close> and changes neither the object nor the
  nodes, and the lookup still returns the first handle). It fails for longer names: the
  message is formatted with \<^verbatim>\<open>sprintf\<close> into \<^verbatim>\<open>char str[300]\<close>, its fixed text has 70
  characters, and with the terminating zero a name of 230 characters overruns the buffer
  before anything is reported.
\<close>

theorem duplicate_attach_long_name:
  "rebx_add_param hdr0 512 long_name REBX_TYPE_DOUBLE ready = Some (Inr (4288, attached_long))
   \<and> rebx_add_param hdr0 512 long_name REBX_TYPE_DOUBLE attached_long
       = Some (Inl (UB BufferOverflow))"
proof -
  have f: "rebx_add_param_nd hdr0 512 long_name REBX_TYPE_DOUBLE 1 [1] ready
           = Some (Inr (4288, attached_long))"
    by (simp add: eval_defs ready_def boot_def hdr0_def attached_long_def long_name_def)
  have "EFFECT_value hdr0 \<le> PARTICLE_value hdr0" by (simp add: hdr0_def)
  from duplicate_attach_overflow [OF this f] f show ?thesis
    by (simp add: rebx_add_param_def long_name_def)
qed

subsection \<open>Storage and round trip\<close>

lemma size_loop_prod: "size_loop acc xs = Inr sz \<Longrightarrow> sz = acc * prod_list xs"
proof (induction xs arbitrary: acc)
  case Nil
  then show ?case by simp
next
  case (Cons x xs)
  from Cons.prems have "size_loop (acc * x) xs = Inr sz" by (simp split: if_splits)
  from Cons.IH [OF this] show ?case by (simp add: mult.assoc)
qed

lemma size_loop_range:
  "size_loop acc xs = Inr sz \<Longrightarrow> INT_MIN \<le> acc \<and> acc \<le> INT_MAX \<Longrightarrow> INT_MIN \<le> sz \<and> sz \<le> INT_MAX"
  by (induction xs arbitrary: acc) (auto split: if_splits)

lemma size_loop_ok:
  "(\<forall>k \<le> length xs. INT_MIN \<le> acc * prod_list (take k xs) \<and> acc * prod_list (take k xs) \<le> INT_MAX)
   \<Longrightarrow> size_loop acc xs = Inr (acc * prod_list xs)"
proof (induction xs arbitrary: acc)
  case Nil
  then show ?case by simp
next
  case (Cons x xs)
  from Cons.prems [rule_format, of 1] have r: "INT_MIN \<le> acc * x \<and> acc * x \<le> INT_MAX" by simp
  have "\<forall>k \<le> length xs. INT_MIN \<le> (acc * x) * prod_list (take k xs)
            \<and> (acc * x) * prod_list (take k xs) \<le> INT_MAX"
  proof (intro allI impI)
    fix k assume "k \<le> length xs"
    with Cons.prems [rule_format, of "Suc k"]
    show "INT_MIN \<le> (acc * x) * prod_list (take k xs) \<and> (acc * x) * prod_list (take k xs) \<le> INT_MAX"
      by (simp add: mult.assoc)
  qed
  from Cons.IH [OF this] r show ?case by (simp add: mult.assoc)
qed

lemma size_t_mul_small:
  "0 \<le> n \<Longrightarrow> n \<le> INT_MAX \<Longrightarrow> k \<le> 8 \<Longrightarrow> size_t_mul k n = k * nat n"
proof -
  assume a: "0 \<le> n" "n \<le> INT_MAX" "k \<le> 8"
  then have "n mod 2 ^ 64 = n" by (simp add: INT_MAX_def)
  moreover have "k * nat n \<le> 8 * nat INT_MAX" using a by (intro mult_mono) auto
  then have "k * nat n < 2 ^ 64" by (simp add: INT_MAX_def)
  ultimately show ?thesis by (simp add: size_t_mul_def)
qed

lemma size_t_mul_le: "0 \<le> n \<Longrightarrow> size_t_mul k n \<le> k * nat n"
proof -
  assume "0 \<le> n"
  then have "nat (n mod 2 ^ 64) \<le> nat n"
    by (intro nat_mono zmod_le_nonneg_dividend)
  then have "k * nat (n mod 2 ^ 64) \<le> k * nat n" by simp
  moreover have "(k * nat (n mod 2 ^ 64)) mod 2 ^ 64 \<le> k * nat (n mod 2 ^ 64)" by simp
  ultimately show ?thesis unfolding size_t_mul_def by linarith
qed

lemma link_returns:
  assumes "rebx_get_param hdr object name s = Some (Inr p)" and "objects s5 = objects s"
  shows "\<exists>s6. (case rebx_get_object_type hdr s5 object of
             Inl e \<Rightarrow> Inl e
           | Inr REBX_TYPE_EFFECT \<Rightarrow>
               (case deref_effect s5 object of
                  Inl e \<Rightarrow> Inl e
                | Inr eff \<Rightarrow>
                   (case set_effect_ap object newparam
                           (s5\<lparr>params := (params s5)(newparam \<mapsto> node\<lparr>pr_next := e_ap eff\<rparr>)\<rparr>) of
                      Inl e \<Rightarrow> Inl e
                    | Inr s6 \<Rightarrow> Inr (contents, s6)))
           | Inr REBX_TYPE_PARTICLE \<Rightarrow>
               (case particle_ap s5 object of
                  Inl e \<Rightarrow> Inl e
                | Inr head \<Rightarrow>
                   (case set_particle_ap object newparam
                           (s5\<lparr>params := (params s5)(newparam \<mapsto> node\<lparr>pr_next := head\<rparr>)\<rparr>) of
                      Inl e \<Rightarrow> Inl e
                    | Inr s6 \<Rightarrow> Inr (contents, s6)))) = Inr (contents, s6)"
proof -
  from assms(1) obtain nd where "rebx_get_param_node hdr object name s = Some (Inr nd)"
    by (auto simp: rebx_get_param_def bind_run_eq_Some_Inr)
  then obtain ty where ty: "rebx_get_object_type hdr s object = Inr ty"
    and eff: "ty = REBX_TYPE_EFFECT \<longrightarrow> (\<exists>eff. deref_effect s object = Inr eff)"
    by (auto simp: rebx_get_param_node_def split: sum.splits rebx_object_type.splits)
  from assms(2) have eqs: "rebx_get_object_type hdr s5 object = rebx_get_object_type hdr s object"
    "deref_effect s5 object = deref_effect s object"
    "particle_ap s5 object = particle_ap s object"
    by (simp_all add: rebx_get_object_type_def particle_ap_def deref_effect_def)
  show ?thesis
  proof (cases ty)
    case REBX_TYPE_EFFECT
    with eff obtain e where "deref_effect s object = Inr e" by blast
    with ty REBX_TYPE_EFFECT eqs assms(2) show ?thesis
      by (simp add: set_effect_ap_def deref_effect_def)
  next
    case REBX_TYPE_PARTICLE
    from ty obtain h where h: "particle_ap s object = Inr h"
      by (auto simp: rebx_get_object_type_def split: sum.splits)
    with ty REBX_TYPE_PARTICLE eqs assms(2) show ?thesis
      by (auto simp: set_particle_ap_def particle_ap_def split: sum.splits object.splits)
  qed
qed

lemma attach_returns:
  assumes absent: "rebx_get_param hdr object name s = Some (Inr NULL)"
    and pool: "pool s = a # b # c # rest" and a: "a \<noteq> NULL" "\<not> collides hdr a"
    and b: "b \<noteq> NULL" and c: "c \<noteq> NULL"
    and ndim: "0 \<le> ndim" "nat ndim \<le> length shape"
    and fit: "\<forall>k \<le> nat ndim. INT_MIN \<le> prod_list (take k shape) \<and> prod_list (take k shape) \<le> INT_MAX"
  shows "\<exists>s1. rebx_add_param_nd hdr object name t ndim shape s = Some (Inr (c, s1))"
proof -
  let ?sa = "s\<lparr>pool := b # c # rest, live := a # live s\<rparr>"
  let ?n1 = "size_t_mul sizeof_int ndim"
  let ?sb = "?sa\<lparr>pool := c # rest, live := b # a # live s,
                 blocks := (blocks s)(b \<mapsto> \<lparr>bytes = ?n1, cells = []\<rparr>)\<rparr>"
  have m: "malloc s = (a, ?sa)" using pool a by (simp add: malloc_def)
  have v: "rebx_validate_ap_address hdr a ?sa = Inr (a, ?sa)" using a(2) by (rule validate_pass)
  have w: "writable ?sa a = Inr ()" using a by (simp add: writable_def)
  have b1: "malloc_block ?n1 ?sa = (b, ?sb)" using b by (simp add: malloc_block_def malloc_def)
  have "?n1 \<le> sizeof_int * nat ndim" using ndim(1) by (rule size_t_mul_le)
  also have "\<dots> \<le> sizeof_int * length shape" using ndim(2) by simp
  finally have n1: "\<not> sizeof_int * length shape < ?n1" by simp
  obtain s4 where cp: "memcpy_shape b shape ?n1 ?sb = Inr s4"
    and s4: "pool s4 = c # rest" "objects s4 = objects s"
    using n1 b by (cases "?n1 = 0") (auto simp: memcpy_shape_def deref_def)
  let ?xs = "take (nat ndim) shape"
  have "\<forall>k \<le> length ?xs. INT_MIN \<le> 1 * prod_list (take k ?xs) \<and> 1 * prod_list (take k ?xs) \<le> INT_MAX"
    using fit ndim(2) by (simp add: min_def)
  from size_loop_ok [OF this] have sz: "size_loop 1 ?xs = Inr (prod_list ?xs)" by simp
  let ?n2 = "size_t_mul (sizeof_type t) (prod_list ?xs)"
  obtain s5 where b2: "malloc_block ?n2 s4 = (c, s5)" and s5: "objects s5 = objects s"
    using s4 c by (simp add: malloc_block_def malloc_def)
  from link_returns [OF absent s5] m v w b1 cp sz b2 absent show ?thesis
    by (simp add: rebx_add_param_nd_def lift_def Let_def)
qed

lemma sizeof_type_le: "sizeof_type t \<le> 8"
  by (cases t) (simp_all add: sizeof_type_def sizeof_double_def sizeof_int_def)

lemma attach_then_write:
  assumes hdr: "EFFECT_value hdr \<le> PARTICLE_value hdr"
    and att: "rebx_add_param_nd hdr object name t ndim shape s = Some (Inr (ptr, s1))"
    and ptr: "ptr \<noteq> NULL"
    and vals: "int (length vs) = prod_list (take (nat ndim) shape)"
  shows "\<exists>s2 a node. rebx_get_param_node hdr object name s1 = Some (Inr a)
       \<and> params s1 a = Some node \<and> pr_size node = int (length vs)
       \<and> pr_param_type node = t \<and> pr_ndim node = ndim
       \<and> map_option bytes (blocks s1 ptr) = Some (sizeof_type t * length vs)
       \<and> write_cells ptr (sizeof_type t) vs s1 = Inr s2
       \<and> rebx_get_param hdr object name s2 = Some (Inr ptr)
       \<and> read_cells ptr s2 = Inr vs"
proof -
  from attach_success [OF att ptr hdr] obtain a node where
    n: "rebx_get_param_node hdr object name s1 = Some (Inr a)" "a \<noteq> NULL"
       "params s1 a = Some node" "pr_contents node = ptr" "pr_param_type node = t"
       "pr_ndim node = ndim" "size_loop 1 (take (nat ndim) shape) = Inr (pr_size node)"
       "blocks s1 ptr = Some \<lparr>bytes = size_t_mul (sizeof_type t) (pr_size node), cells = []\<rparr>"
    by blast
  from size_loop_prod [OF n(7)] vals have sz: "pr_size node = int (length vs)" by simp
  from size_loop_range [OF n(7)] have "pr_size node \<le> INT_MAX"
    by (simp add: INT_MIN_def INT_MAX_def)
  with sz have nbytes: "size_t_mul (sizeof_type t) (pr_size node) = sizeof_type t * length vs"
    using size_t_mul_small [of "pr_size node" "sizeof_type t"] sizeof_type_le [of t] by simp
  let ?s2 = "s1\<lparr>blocks := (blocks s1)(ptr \<mapsto>
                \<lparr>bytes = sizeof_type t * length vs, cells = []\<rparr>\<lparr>cells := vs\<rparr>)\<rparr>"
  have w: "write_cells ptr (sizeof_type t) vs s1 = Inr ?s2"
    using n(8) nbytes ptr by (simp add: write_cells_def deref_def)
  have g1: "rebx_get_param hdr object name s1 = Some (Inr ptr)"
    using n by (simp add: rebx_get_param_def deref_param_def deref_def)
  have g2: "rebx_get_param hdr object name ?s2 = rebx_get_param hdr object name s1"
    by (rule get_param_cong) simp_all
  have r: "read_cells ptr ?s2 = Inr vs"
    using ptr by (simp add: read_cells_def deref_def)
  from n sz nbytes w g1 g2 r show ?thesis by simp
qed

text \<open>
  C8, as stated, fails: not every shape gets storage. The element count is computed in
  \<^verbatim>\<open>int\<close>; for the shape 65536 x 65536 the product overflows (undefined behaviour), and no
  storage of \<open>2^32\<close> elements is handed out.
\<close>

theorem attach_overflow_counterexample:
  "rebx_add_param2d hdr0 512 ''grid'' REBX_TYPE_DOUBLE 65536 65536 ready
     = Some (Inl (UB SignedOverflow))"
  by (simp add: rebx_add_param2d_def eval_defs ready_def boot_def hdr0_def)


text \<open>
  C8, amended. Take a name that the object does not have yet, a shape none of whose running
  products leaves the range of \<^verbatim>\<open>int\<close>, and as many values as the product of the extents;
  let the allocator supply the node (outside the reserved range), the copy of the shape and
  the storage. Then \<^verbatim>\<open>rebx_add_param_\<close> returns the storage; the node records the kind,
  the rank and the element count, which is the product of the extents; the storage was
  requested with that count times the element size in bytes; and after the values are
  written through the handle, \<^verbatim>\<open>rebx_get_param\<close> on the same object and name returns the
  same handle, behind which the values are read back element for element.
\<close>

theorem attach_roundtrip:
  assumes hdr: "EFFECT_value hdr \<le> PARTICLE_value hdr"
    and absent: "rebx_get_param hdr object name s = Some (Inr NULL)"
    and pool: "pool s = a # b # c # rest" and a: "a \<noteq> NULL" "\<not> collides hdr a"
    and b: "b \<noteq> NULL" and c: "c \<noteq> NULL"
    and ndim: "0 \<le> ndim" "nat ndim \<le> length shape"
    and fit: "\<forall>k \<le> nat ndim. INT_MIN \<le> prod_list (take k shape) \<and> prod_list (take k shape) \<le> INT_MAX"
    and vals: "int (length vs) = prod_list (take (nat ndim) shape)"
  shows "\<exists>s1 s2 node_at node.
         rebx_add_param_nd hdr object name t ndim shape s = Some (Inr (c, s1))
       \<and> rebx_get_param_node hdr object name s1 = Some (Inr node_at)
       \<and> params s1 node_at = Some node \<and> pr_size node = int (length vs)
       \<and> pr_param_type node = t \<and> pr_ndim node = ndim
       \<and> map_option bytes (blocks s1 c) = Some (sizeof_type t * length vs)
       \<and> write_cells c (sizeof_type t) vs s1 = Inr s2
       \<and> rebx_get_param hdr object name s2 = Some (Inr c)
       \<and> read_cells c s2 = Inr vs"
proof -
  from attach_returns [OF absent pool a b c ndim fit] obtain s1 where
    att: "rebx_add_param_nd hdr object name t ndim shape s = Some (Inr (c, s1))" by blast
  from attach_then_write [OF hdr att c vals] att show ?thesis by blast
qed

theorem attach_roundtrip_witness:
  "\<exists>s1 s2. rebx_add_param2d hdr0 512 ''grid'' REBX_TYPE_INT 2 3 ready = Some (Inr (4288, s1))
     \<and> map_option bytes (blocks s1 4288) = Some 24
     \<and> write_cells 4288 4 [IntCell 1, IntCell 2, IntCell 3, IntCell 4, IntCell 5, IntCell 6] s1 = Inr s2
     \<and> rebx_get_param hdr0 512 ''grid'' s2 = Some (Inr 4288)
     \<and> read_cells 4288 s2 = Inr [IntCell 1, IntCell 2, IntCell 3, IntCell 4, IntCell 5, IntCell 6]"
proof -
  have hdr: "EFFECT_value hdr0 \<le> PARTICLE_value hdr0" by (simp add: hdr0_def)
  have absent: "rebx_get_param hdr0 512 ''grid'' ready = Some (Inr NULL)"
    by (simp add: eval_defs ready_def boot_def hdr0_def)
  have pool: "pool ready = 4160 # 4224 # 4288 # [4352, 4416, 4480, 4544]"
    by (simp add: ready_def)
  have a: "(4160 :: addr) \<noteq> NULL" "\<not> collides hdr0 4160"
    by (simp_all add: collides_iff hdr0_def)
  have fit: "\<forall>k \<le> nat 2. INT_MIN \<le> prod_list (take k [2, 3 :: int])
                \<and> prod_list (take k [2, 3 :: int]) \<le> INT_MAX"
    by (auto simp: le_Suc_eq numeral_2_eq_2 INT_MIN_def INT_MAX_def)
  have vals: "int (length [IntCell 1, IntCell 2, IntCell 3, IntCell 4, IntCell 5, IntCell 6])
                = prod_list (take (nat 2) [2, 3 :: int])"
    by simp
  from attach_roundtrip [OF hdr absent pool a _ _ _ _ fit vals, of REBX_TYPE_INT]
  show ?thesis
    by (simp add: rebx_add_param2d_def sizeof_type_def sizeof_int_def) blast
qed


end
